theory Spec2Isabelle
  imports Complex_Main "HOL-Library.Log_Nat"
begin

section \<open>JavaScript values\<close>

subsection \<open>Strings and character classes\<close>

text \<open>
  A JavaScript string is a sequence of UTF-16 code units. The model is \<open>string\<close>, a list
  of 8-bit characters, where a character stands for the code unit of the same number:
  the theory speaks about the strings whose code units are all below 256 (ASCII and
  Latin-1). The classes below are the ones the regular expressions of the sources use,
  restricted to that range: \<^verbatim>\<open>\w\<close> is \<^verbatim>\<open>[A-Za-z0-9_]\<close>, \<^verbatim>\<open>\d\<close> is \<^verbatim>\<open>[0-9]\<close>, and
  \<^verbatim>\<open>\s\<close> (also the set that \<^verbatim>\<open>trim\<close> strips) is tab, line feed, vertical tab, form
  feed, carriage return, space and the no-break space U+00A0.
\<close>

definition isWordChar :: "char \<Rightarrow> bool" where
  "isWordChar c \<longleftrightarrow>
     c \<in> set ''abcdefghijklmnopqrstuvwxyzABCDEFGHIJKLMNOPQRSTUVWXYZ0123456789_''"

definition isDigit :: "char \<Rightarrow> bool" where
  "isDigit c \<longleftrightarrow> c \<in> set ''0123456789''"

definition isAsciiLetter :: "char \<Rightarrow> bool" where
  "isAsciiLetter c \<longleftrightarrow> c \<in> set ''abcdefghijklmnopqrstuvwxyzABCDEFGHIJKLMNOPQRSTUVWXYZ''"

definition isSpace :: "char \<Rightarrow> bool" where
  "isSpace c \<longleftrightarrow>
     c \<in> set [CHR 0x09, CHR 0x0A, CHR 0x0B, CHR 0x0C, CHR 0x0D, CHR 0x20, CHR 0xA0]"

text \<open>
  \<^verbatim>\<open>String.prototype.toLowerCase\<close> on code units below 256: the letters A to Z and
  the Latin-1 capitals U+00C0 to U+00DE (the multiplication sign U+00D7 apart) move up
  by 32; every other code unit stays. All these capitals have bit 5 (value 32) clear, so
  moving up by 32 is setting that bit; moving a small letter down by 32 is clearing it.
\<close>

definition upperChars :: string where
  "upperChars = ''ABCDEFGHIJKLMNOPQRSTUVWXYZ''"

definition lowerChars :: string where
  "lowerChars = ''abcdefghijklmnopqrstuvwxyz''"

definition latin1Upper :: string where
  "latin1Upper =
     [CHR 0xC0, CHR 0xC1, CHR 0xC2, CHR 0xC3, CHR 0xC4, CHR 0xC5, CHR 0xC6, CHR 0xC7,
      CHR 0xC8, CHR 0xC9, CHR 0xCA, CHR 0xCB, CHR 0xCC, CHR 0xCD, CHR 0xCE, CHR 0xCF,
      CHR 0xD0, CHR 0xD1, CHR 0xD2, CHR 0xD3, CHR 0xD4, CHR 0xD5, CHR 0xD6,
      CHR 0xD8, CHR 0xD9, CHR 0xDA, CHR 0xDB, CHR 0xDC, CHR 0xDD, CHR 0xDE]"

definition setBit5 :: "char \<Rightarrow> char" where
  "setBit5 c = (case c of Char b0 b1 b2 b3 b4 b5 b6 b7 \<Rightarrow> Char b0 b1 b2 b3 b4 True b6 b7)"

definition clearBit5 :: "char \<Rightarrow> char" where
  "clearBit5 c = (case c of Char b0 b1 b2 b3 b4 b5 b6 b7 \<Rightarrow> Char b0 b1 b2 b3 b4 False b6 b7)"

definition isUpperChar :: "char \<Rightarrow> bool" where
  "isUpperChar c \<longleftrightarrow> c \<in> set (upperChars @ latin1Upper)"

definition isLowerAscii :: "char \<Rightarrow> bool" where
  "isLowerAscii c \<longleftrightarrow> c \<in> set lowerChars"

definition toLowerChar :: "char \<Rightarrow> char" where
  "toLowerChar c = (if isUpperChar c then setBit5 c else c)"

definition toLowerCase :: "string \<Rightarrow> string" where
  "toLowerCase s = map toLowerChar s"

text \<open>
  The regular expressions carry the flag \<^verbatim>\<open>i\<close> and no flag \<^verbatim>\<open>u\<close>: two characters
  match when their canonical (upper case) forms agree, and a character outside ASCII
  never canonicalises into ASCII. Every literal of the patterns is ASCII, so folding the
  letters a to z is all that matters.
\<close>

definition canonChar :: "char \<Rightarrow> char" where
  "canonChar c = (if isLowerAscii c then clearBit5 c else c)"

primrec trimEnd :: "string \<Rightarrow> string" where
  "trimEnd [] = []"
| "trimEnd (c # cs) = (let r = trimEnd cs in if r = [] \<and> isSpace c then [] else c # r)"

definition trim :: "string \<Rightarrow> string" where
  "trim s = trimEnd (dropWhile isSpace s)"

text \<open>The operator \<^verbatim>\<open>a || b\<close> on strings: the empty string is falsy.\<close>

definition jsOr :: "string \<Rightarrow> string \<Rightarrow> string" where
  "jsOr a b = (if a = [] then b else a)"

fun joinWith :: "string \<Rightarrow> string list \<Rightarrow> string" where
  "joinWith sep [] = []"
| "joinWith sep [x] = x"
| "joinWith sep (x # y # ys) = x @ sep @ joinWith sep (y # ys)"

subsection \<open>Regular expressions: a backtracking matcher\<close>

text \<open>
  The constructs the patterns of the sources use. \<open>Lit\<close> is a literal (compared under
  the flag \<^verbatim>\<open>i\<close>), \<open>Cls\<close> one character of a class, \<open>Star\<close> and \<open>Plus\<close> the greedy
  repetitions \<^verbatim>\<open>c*\<close> and \<^verbatim>\<open>c+\<close> of a class, \<open>Bnd\<close> the word boundary \<^verbatim>\<open>\b\<close>,
  \<open>Grp n\<close> the capture group number \<open>n\<close>, \<open>Opt\<close> the greedy \<^verbatim>\<open>r?\<close>, \<open>Alt\<close> the
  alternation \<^verbatim>\<open>r|s\<close> (left first) and \<open>Seq\<close> the concatenation.
\<close>

datatype rx =
    Lit string
  | Cls "char \<Rightarrow> bool"
  | Star "char \<Rightarrow> bool"
  | Plus "char \<Rightarrow> bool"
  | Bnd
  | Grp nat rx
  | Opt rx
  | Alt rx rx
  | Seq rx rx

text \<open>
  A matcher state: the character before the current position (none at the start of the
  string), the text from the current position on, and the captures made so far.
\<close>

record mstate =
  prevChar :: "char option"
  remaining :: string
  captures :: "(nat \<times> string) list"

fun matchLit :: "string \<Rightarrow> string \<Rightarrow> bool" where
  "matchLit [] t = True"
| "matchLit (p # ps) [] = False"
| "matchLit (p # ps) (c # cs) = (canonChar c = canonChar p \<and> matchLit ps cs)"

definition advance :: "nat \<Rightarrow> mstate \<Rightarrow> mstate" where
  "advance n s =
     (if n = 0 then s
      else s\<lparr>prevChar := Some (remaining s ! (n - 1)), remaining := drop n (remaining s)\<rparr>)"

text \<open>
  A greedy repetition tries the longest run first and gives characters back one at a
  time, down to the minimum \<open>lo\<close>.
\<close>

primrec tryDown :: "nat \<Rightarrow> nat \<Rightarrow> (nat \<Rightarrow> 'a option) \<Rightarrow> 'a option" where
  "tryDown lo 0 k = (if lo = 0 then k 0 else None)"
| "tryDown lo (Suc n) k =
     (if Suc n < lo then None
      else (case k (Suc n) of Some x \<Rightarrow> Some x | None \<Rightarrow> tryDown lo n k))"

definition headOpt :: "'a list \<Rightarrow> 'a option" where
  "headOpt xs = (case xs of [] \<Rightarrow> None | x # _ \<Rightarrow> Some x)"

definition isWordOpt :: "char option \<Rightarrow> bool" where
  "isWordOpt c = (case c of None \<Rightarrow> False | Some x \<Rightarrow> isWordChar x)"

text \<open>
  The matcher, in continuation-passing style: \<open>rxm r s k\<close> matches \<open>r\<close> at state \<open>s\<close>
  and hands every way of matching it, in the engine's order of preference, to the
  continuation \<open>k\<close> (the rest of the pattern) until one succeeds.
\<close>

primrec rxm :: "rx \<Rightarrow> mstate \<Rightarrow> (mstate \<Rightarrow> 'a option) \<Rightarrow> 'a option" where
  "rxm (Lit l) s k = (if matchLit l (remaining s) then k (advance (length l) s) else None)"
| "rxm (Cls p) s k =
     (case remaining s of [] \<Rightarrow> None | c # cs \<Rightarrow> if p c then k (advance 1 s) else None)"
| "rxm (Star p) s k = tryDown 0 (length (takeWhile p (remaining s))) (\<lambda>n. k (advance n s))"
| "rxm (Plus p) s k = tryDown 1 (length (takeWhile p (remaining s))) (\<lambda>n. k (advance n s))"
| "rxm Bnd s k =
     (if isWordOpt (prevChar s) \<noteq> isWordOpt (headOpt (remaining s)) then k s else None)"
| "rxm (Grp g r) s k =
     rxm r s (\<lambda>s'. k (s'\<lparr>captures :=
        (g, take (length (remaining s) - length (remaining s')) (remaining s)) # captures s'\<rparr>))"
| "rxm (Opt r) s k = (case rxm r s k of Some x \<Rightarrow> Some x | None \<Rightarrow> k s)"
| "rxm (Alt a b) s k = (case rxm a s k of Some x \<Rightarrow> Some x | None \<Rightarrow> rxm b s k)"
| "rxm (Seq a b) s k = rxm a s (\<lambda>s'. rxm b s' k)"

text \<open>
  One match attempt at a position: the captures (by group number) and the length of the
  match, or \<open>None\<close>.
\<close>

definition execAt :: "rx \<Rightarrow> char option \<Rightarrow> string \<Rightarrow> ((nat \<Rightarrow> string option) \<times> nat) option" where
  "execAt r prev t =
     rxm r \<lparr>prevChar = prev, remaining = t, captures = []\<rparr>
       (\<lambda>s'. Some (map_of (captures s'), length t - length (remaining s')))"

text \<open>
  \<^verbatim>\<open>text.replace(/r/g, f)\<close>: scan from the left; at a match, emit the replacement
  (computed from the matched text and the groups) and go on after the match; elsewhere
  copy the character. \<open>skip\<close> counts the characters of the current match still to pass:
  they are not copied, and no match starts inside them. An empty match emits its
  replacement and copies the next character.
\<close>

primrec replaceFrom ::
  "rx \<Rightarrow> (string \<Rightarrow> (nat \<Rightarrow> string option) \<Rightarrow> string) \<Rightarrow> char option \<Rightarrow> nat \<Rightarrow> string \<Rightarrow> string" where
  "replaceFrom r f prev skip [] =
     (if skip = 0 then (case execAt r prev [] of Some (g, n) \<Rightarrow> f [] g | None \<Rightarrow> []) else [])"
| "replaceFrom r f prev skip (c # cs) =
     (case skip of
        Suc j \<Rightarrow> replaceFrom r f (Some c) j cs
      | 0 \<Rightarrow>
         (case execAt r prev (c # cs) of
            Some (g, n) \<Rightarrow>
              (if n = 0 then f [] g @ c # replaceFrom r f (Some c) 0 cs
               else f (take n (c # cs)) g @ replaceFrom r f (Some c) (n - 1) cs)
          | None \<Rightarrow> c # replaceFrom r f (Some c) 0 cs))"

definition replaceAll :: "rx \<Rightarrow> (string \<Rightarrow> (nat \<Rightarrow> string option) \<Rightarrow> string) \<Rightarrow> string \<Rightarrow> string" where
  "replaceAll r f text = replaceFrom r f None 0 text"

text \<open>A replacement string (none of the sources' has a \<^verbatim>\<open>$\<close> pattern).\<close>

definition replaceWith :: "rx \<Rightarrow> string \<Rightarrow> string \<Rightarrow> string" where
  "replaceWith r rep text = replaceAll r (\<lambda>_ _. rep) text"

fun altsOf :: "string list \<Rightarrow> rx" where
  "altsOf [] = Cls (\<lambda>_. False)"
| "altsOf [w] = Lit w"
| "altsOf (w # v # ws) = Alt (Lit w) (altsOf (v # ws))"

fun seqOf :: "rx list \<Rightarrow> rx" where
  "seqOf [] = Lit []"
| "seqOf [r] = r"
| "seqOf (r # q # rs) = Seq r (seqOf (q # rs))"

text \<open>A group that did not take part in the match is \<^verbatim>\<open>undefined\<close>, which is falsy.\<close>

definition grp :: "(nat \<Rightarrow> string option) \<Rightarrow> nat \<Rightarrow> string" where
  "grp g n = (case g n of Some t \<Rightarrow> t | None \<Rightarrow> [])"

subsection \<open>Numbers\<close>

text \<open>
  A JavaScript number is an IEEE 754 binary64 value. The finite ones are rational
  numbers, and the model is \<open>rat\<close> with the rounding of every operation written out:
  \<open>fl x\<close> is the binary64 value nearest to \<open>x\<close>, ties to the even significand (53
  significant bits; below \<open>2^-1022\<close> the spacing is \<open>2^-1074\<close>). Overflow to infinity
  (magnitudes from \<open>2^1024\<close>) is not modelled: no value here comes near it.
  \<open>ilog2 x\<close> is the binary exponent of a positive \<open>x\<close>.
\<close>

definition ilog2 :: "rat \<Rightarrow> int" where
  "ilog2 x = (if 1 \<le> x then bitlen \<lfloor>x\<rfloor> - 1 else - bitlen (\<lceil>1 / x\<rceil> - 1))"

definition roundHalfEven :: "rat \<Rightarrow> int" where
  "roundHalfEven r =
     (let n = \<lfloor>r\<rfloor>; d = r - of_int n
      in if d < 1 / 2 then n else if 1 / 2 < d then n + 1 else if even n then n else n + 1)"

definition pow2 :: "int \<Rightarrow> rat" where
  "pow2 k = (if 0 \<le> k then 2 ^ nat k else 1 / 2 ^ nat (- k))"

definition fl :: "rat \<Rightarrow> rat" where
  "fl x =
     (if x = 0 then 0
      else (let e = max (ilog2 \<bar>x\<bar>) (- 1022); q = pow2 (e - 52)
            in of_int (roundHalfEven (x / q)) * q))"

text \<open>
  \<^verbatim>\<open>Math.round\<close>: the nearest integer, a tie going up. The result is an integer, so
  the model returns an \<open>int\<close>.
\<close>

definition jsRound :: "rat \<Rightarrow> int" where
  "jsRound x = \<lfloor>x + 1 / 2\<rfloor>"

section \<open>Scoring engine\<close>

subsection \<open>Radio transcript normalization (scoring/radioNormalize.ts)\<close>

definition DIGIT_TO_WORD :: "(string \<times> string) list" where
  "DIGIT_TO_WORD =
     [(''0'', ''zero''), (''1'', ''one''), (''2'', ''two''), (''3'', ''three''),
      (''4'', ''four''), (''5'', ''five''), (''6'', ''six''), (''7'', ''seven''),
      (''8'', ''eight''), (''9'', ''nine'')]"

definition WORD_TO_DIGIT :: "(string \<times> string) list" where
  "WORD_TO_DIGIT =
     [(''zero'', ''0''), (''one'', ''1''), (''two'', ''2''), (''three'', ''3''),
      (''four'', ''4''), (''five'', ''5''), (''six'', ''6''), (''seven'', ''7''),
      (''eight'', ''8''), (''nine'', ''9''), (''niner'', ''9'')]"

definition COMPOUND_NUMBERS :: "(string \<times> string) list" where
  "COMPOUND_NUMBERS =
     [(''ten'', ''one zero''), (''eleven'', ''one one''), (''twelve'', ''one two''),
      (''thirteen'', ''one three''), (''fourteen'', ''one four''), (''fifteen'', ''one five''),
      (''sixteen'', ''one six''), (''seventeen'', ''one seven''), (''eighteen'', ''one eight''),
      (''nineteen'', ''one nine''), (''twenty'', ''two zero''), (''thirty'', ''three zero''),
      (''forty'', ''four zero''), (''fifty'', ''five zero''), (''sixty'', ''six zero''),
      (''seventy'', ''seven zero''), (''eighty'', ''eight zero''), (''ninety'', ''nine zero'')]"

definition CALLSIGN_PREFIXES :: "string list" where
  "CALLSIGN_PREFIXES =
     [''bowser'', ''shepherd'', ''hotel'', ''alpha'', ''bravo'', ''charlie'', ''delta'',
      ''echo'', ''foxtrot'', ''golf'', ''india'', ''juliet'', ''kilo'', ''lima'', ''mike'',
      ''november'', ''oscar'', ''papa'', ''quebec'', ''romeo'', ''sierra'', ''tango'',
      ''uniform'', ''victor'', ''whiskey'', ''xray'', ''x-ray'', ''yankee'', ''zulu'', ''fire'',
      ''security'', ''afe'', ''contractor'']"

text \<open>The lookup \<^verbatim>\<open>TABLE[key] || dflt\<close>.\<close>

definition lookupOr :: "(string \<times> string) list \<Rightarrow> string \<Rightarrow> string \<Rightarrow> string" where
  "lookupOr tbl key dflt =
     (case map_of tbl key of Some v \<Rightarrow> (if v = [] then dflt else v) | None \<Rightarrow> dflt)"

definition digitsToSpoken :: "string \<Rightarrow> string" where
  "digitsToSpoken digits = joinWith '' '' (map (\<lambda>d. lookupOr DIGIT_TO_WORD [d] [d]) digits)"

text \<open>
  \<^verbatim>\<open>/\b(twenty|...|ninety)\s*(one|...|nine)?\b/gi\<close> and its replacement function.
\<close>

definition tensPattern :: rx where
  "tensPattern =
     seqOf [Bnd,
            Grp 1 (altsOf [''twenty'', ''thirty'', ''forty'', ''fifty'', ''sixty'', ''seventy'',
                           ''eighty'', ''ninety'']),
            Star isSpace,
            Opt (Grp 2 (altsOf [''one'', ''two'', ''three'', ''four'', ''five'', ''six'', ''seven'',
                                ''eight'', ''nine''])),
            Bnd]"

definition tensReplacer :: "string \<Rightarrow> (nat \<Rightarrow> string option) \<Rightarrow> string" where
  "tensReplacer m g =
     (let tens = grp g 1; ones = grp g 2;
          tensDigit = lookupOr COMPOUND_NUMBERS (toLowerCase tens) tens
      in if ones \<noteq> [] then
           (let onesDigit = lookupOr WORD_TO_DIGIT (toLowerCase ones) ones;
                tensFirst = takeWhile (\<lambda>c. c \<noteq> CHR '' '') tensDigit
            in tensFirst @ '' '' @ lookupOr DIGIT_TO_WORD onesDigit onesDigit)
         else tensDigit)"

text \<open>\<^verbatim>\<open>new RegExp(`\\b${w}\\b`, 'gi')\<close>.\<close>

definition wordPattern :: "string \<Rightarrow> rx" where
  "wordPattern w = seqOf [Bnd, Lit w, Bnd]"

definition expandCompoundNumbers :: "string \<Rightarrow> string" where
  "expandCompoundNumbers text =
     foldl (\<lambda>result (compound, spoken). replaceWith (wordPattern compound) spoken result)
       (replaceAll tensPattern tensReplacer (toLowerCase text))
       COMPOUND_NUMBERS"

definition callsignPrefixPattern :: rx where
  "callsignPrefixPattern =
     seqOf [Bnd, Grp 1 (altsOf CALLSIGN_PREFIXES), Star isSpace, Grp 2 (Plus isDigit), Bnd]"

definition runwayPattern :: rx where
  "runwayPattern = seqOf [Bnd, Lit ''runway'', Star isSpace, Grp 1 (Plus isDigit), Bnd]"

definition taxiwayPattern :: rx where
  "taxiwayPattern =
     seqOf [Bnd, Lit ''taxiway'', Star isSpace, Grp 1 (Cls isAsciiLetter), Star isSpace,
            Grp 2 (Plus isDigit), Bnd]"

definition headingPattern :: rx where
  "headingPattern =
     seqOf [Bnd, Grp 1 (altsOf [''heading'', ''altitude'', ''squawk'', ''flight level'']),
            Star isSpace, Grp 2 (Plus isDigit), Bnd]"

definition normalizeRadioNumbers :: "string \<Rightarrow> string" where
  "normalizeRadioNumbers text =
     (let result = expandCompoundNumbers text;
          result = foldl (\<lambda>result (word, digit).
                      replaceWith (wordPattern word)
                        (case map_of DIGIT_TO_WORD digit of Some w \<Rightarrow> w | None \<Rightarrow> ''undefined'')
                        result)
                    result WORD_TO_DIGIT;
          result = replaceAll callsignPrefixPattern
                     (\<lambda>_ g. grp g 1 @ '' '' @ digitsToSpoken (grp g 2)) result;
          result = replaceAll runwayPattern
                     (\<lambda>_ g. ''runway '' @ digitsToSpoken (grp g 1)) result;
          result = replaceAll taxiwayPattern
                     (\<lambda>_ g. ''taxiway '' @ grp g 1 @ '' '' @ digitsToSpoken (grp g 2)) result;
          result = replaceAll headingPattern
                     (\<lambda>_ g. grp g 1 @ '' '' @ digitsToSpoken (grp g 2)) result
      in result)"

definition isPunctuation :: "char \<Rightarrow> bool" where
  "isPunctuation c \<longleftrightarrow>
     c \<in> set [CHR ''.'', CHR '','', CHR '';'', CHR '':'', CHR ''!'', CHR ''?'', CHR 0x27, CHR 0x22]"

text \<open>\<^verbatim>\<open>.replace(/\s+/g, ' ')\<close>.\<close>

definition collapseSpaces :: "string \<Rightarrow> string" where
  "collapseSpaces text = replaceWith (Plus isSpace) '' '' text"

definition removePunctuation :: "string \<Rightarrow> string" where
  "removePunctuation text = trim (collapseSpaces (replaceWith (Cls isPunctuation) '' '' text))"

definition normalizeRadioPhrases :: "string \<Rightarrow> string" where
  "normalizeRadioPhrases text =
     (let result = text;
          result = replaceWith
                     (seqOf [Bnd, Lit ''over'', Plus isSpace, Lit ''and'', Plus isSpace, Lit ''out'', Bnd])
                     ''over and out'' result;
          result = replaceWith (seqOf [Bnd, Lit ''roger'', Plus isSpace, Lit ''that'', Bnd])
                     ''roger'' result;
          result = replaceWith (seqOf [Bnd, Lit ''copy'', Plus isSpace, Lit ''that'', Bnd])
                     ''copy'' result;
          result = replaceWith (seqOf [Bnd, Lit ''ground'', Plus isSpace, Lit ''control'', Bnd])
                     ''ground'' result;
          result = replaceWith (seqOf [Bnd, Lit ''atc'', Bnd]) ''atc'' result
      in result)"

definition normalizeHyphens :: "string \<Rightarrow> string" where
  "normalizeHyphens text = trim (collapseSpaces (replaceWith (Lit ''-'') '' '' text))"

definition normalizeRadioTranscript :: "string \<Rightarrow> string" where
  "normalizeRadioTranscript text =
     (if text = [] then []
      else (let result = toLowerCase text;
                result = normalizeHyphens result;
                result = normalizeRadioNumbers result;
                result = normalizeRadioPhrases result;
                result = removePunctuation result;
                result = trim (collapseSpaces result)
            in result))"

definition areTranscriptsEquivalent :: "string \<Rightarrow> string \<Rightarrow> bool" where
  "areTranscriptsEquivalent transcript1 transcript2 \<longleftrightarrow>
     normalizeRadioTranscript transcript1 = normalizeRadioTranscript transcript2"

subsection \<open>Accuracy (scoring/accuracy.ts)\<close>

text \<open>
  \<^verbatim>\<open>calculateSimilarity\<close> (\<^verbatim>\<open>./similarity\<close>) is not among the sources at hand: it is a
  parameter, a function from two strings to a number.
\<close>

record AccuracyBreakdown =
  similarityScore :: rat
  normalizedTranscript :: string
  normalizedExpected :: string

definition calculateAccuracy ::
  "(string \<Rightarrow> string \<Rightarrow> rat) \<Rightarrow> string \<Rightarrow> string \<Rightarrow> int \<times> AccuracyBreakdown" where
  "calculateAccuracy calculateSimilarity transcript expected =
     (let normalizedTranscript = normalizeRadioTranscript transcript;
          normalizedExpected = normalizeRadioTranscript expected;
          similarityScore = calculateSimilarity normalizedTranscript normalizedExpected;
          score = jsRound (fl (similarityScore * 100))
      in (score, \<lparr>similarityScore = similarityScore,
                  normalizedTranscript = normalizedTranscript,
                  normalizedExpected = normalizedExpected\<rparr>))"

subsection \<open>Fluency (scoring/fluency.ts)\<close>

text \<open>
  \<^verbatim>\<open>calculateFluency\<close> calls \<^verbatim>\<open>detectFillers\<close> and \<^verbatim>\<open>countTotalFillers\<close> of
  \<^verbatim>\<open>./fillers\<close>, a module that is not among the sources at hand. Both are parameters of
  the model: \<open>detectFillers\<close> maps a transcript to its list of filler entries (of an
  arbitrary type \<open>'f\<close>), \<open>countTotalFillers\<close> maps such a list to the total count. The
  count is an \<open>int\<close>; the multiplication by 5 and the subtraction from 100 are exact on
  numbers of that size.
\<close>

record 'f FluencyBreakdown =
  fillerPenalty :: int
  fluencyFillers :: "'f list"
  totalFillers :: int

definition calculateFluency ::
  "(string \<Rightarrow> 'f list) \<Rightarrow> ('f list \<Rightarrow> int) \<Rightarrow> string \<Rightarrow> int \<times> 'f FluencyBreakdown" where
  "calculateFluency detectFillers countTotalFillers transcript =
     (let fillers = detectFillers transcript;
          totalFillers = countTotalFillers fillers;
          fillerPenalty = min 50 (totalFillers * 5);
          score = 100 - fillerPenalty
      in (score, \<lparr>fillerPenalty = fillerPenalty, fluencyFillers = fillers,
                  totalFillers = totalFillers\<rparr>))"

definition fluencyScore :: "(string \<Rightarrow> 'f list) \<Rightarrow> ('f list \<Rightarrow> int) \<Rightarrow> string \<Rightarrow> int" where
  "fluencyScore detectFillers countTotalFillers transcript =
     fst (calculateFluency detectFillers countTotalFillers transcript)"

definition detectedFillerCount :: "(string \<Rightarrow> 'f list) \<Rightarrow> ('f list \<Rightarrow> int) \<Rightarrow> string \<Rightarrow> int" where
  "detectedFillerCount detectFillers countTotalFillers transcript =
     countTotalFillers (detectFillers transcript)"

subsection \<open>Overall (scoring/overall.ts)\<close>

text \<open>
  The weights are the binary64 values of the literals \<^verbatim>\<open>0.50\<close>, \<^verbatim>\<open>0.30\<close> and
  \<^verbatim>\<open>0.20\<close>; the weighted sum is evaluated left to right, each product and each sum
  rounded to binary64.
\<close>

definition WEIGHTS_accuracy :: rat where "WEIGHTS_accuracy = fl (50 / 100)"
definition WEIGHTS_fluency :: rat where "WEIGHTS_fluency = fl (30 / 100)"
definition WEIGHTS_structure :: rat where "WEIGHTS_structure = fl (20 / 100)"

definition clamp :: "rat \<Rightarrow> rat \<Rightarrow> rat \<Rightarrow> rat" where
  "clamp v mn mx = max mn (min mx v)"

definition weightedSum :: "rat \<Rightarrow> rat \<Rightarrow> rat \<Rightarrow> rat" where
  "weightedSum a f s =
     fl (fl (fl (WEIGHTS_accuracy * a) + fl (WEIGHTS_fluency * f)) + fl (WEIGHTS_structure * s))"

definition calculateOverall :: "rat \<Rightarrow> rat \<Rightarrow> rat \<Rightarrow> int" where
  "calculateOverall accuracy fluency structure =
     (let clampedAccuracy = clamp accuracy 0 100;
          clampedFluency = clamp fluency 0 100;
          clampedStructure = clamp structure 0 100;
          weighted = weightedSum clampedAccuracy clampedFluency clampedStructure
      in jsRound (clamp weighted 0 100))"

text \<open>
  The formula of the specification, read in exact arithmetic: round (a tie going up)
  of 0.5 a + 0.3 f + 0.2 s, clamped to [0, 100].
\<close>

definition overallExact :: "rat \<Rightarrow> rat \<Rightarrow> rat \<Rightarrow> int" where
  "overallExact a f s = max 0 (min 100 (jsRound (1 / 2 * a + 3 / 10 * f + 1 / 5 * s)))"

section \<open>Session store (state/sessionStore.ts)\<close>

datatype ProviderId = OpenAI | ElevenLabs

datatype ProviderStatus =
  StIdle | StConnecting | StListening | StProcessing | StCompleted | StError

datatype RecordingState = RecIdle | RecListening | RecProcessing | RecCompleted

datatype TestMode = ReadAloud | OpenEnded

datatype StructureMode = Full | AckShort | ClarifyRequest

record Question =
  prompt :: string
  options :: "string list"
  correctIndex :: nat
  expectedSpokenAnswer :: "string option"
  structureMode :: "StructureMode option"
  expectedKeywords :: "string list option"

record QuestionBank =
  questions :: "Question list"

record TranscriptState =
  interimText :: string
  committedText :: string
  finalText :: string

text \<open>
  The argument of \<^verbatim>\<open>updateProviderTranscript\<close>: an object with any of the three
  fields; a field that is absent leaves the stored one as it is.
\<close>

record TranscriptPatch =
  setInterimText :: "string option"
  setCommittedText :: "string option"
  setFinalText :: "string option"

record WordTiming =
  word :: string
  startMs :: int
  endMs :: int
  confidence :: "rat option"

record ProviderMetrics =
  accuracy :: int
  fluency :: int
  structureScore :: rat
  overall :: int

record ('f, 'sb) ScoringBreakdown =
  accuracyBreakdown :: AccuracyBreakdown
  fluencyBreakdown :: "'f FluencyBreakdown"
  structureBreakdown :: 'sb

record CostEstimate =
  currency :: string
  amount :: rat
  costMethod :: string

record ('f, 'sb) ProviderResult =
  status :: ProviderStatus
  transcript :: TranscriptState
  words :: "WordTiming list option"
  durationMs :: int
  fillers :: "'f list"
  metrics :: "ProviderMetrics option"
  breakdown :: "('f, 'sb) ScoringBreakdown option"
  cost :: "CostEstimate option"
  errors :: "string list option"

record OpenAIScoreResult =
  aiAccuracy :: int
  aiFluency :: int
  aiStructure :: int
  aiOverall :: int
  feedback :: string
  fillerWords :: "string list"
  fillerCount :: int
  radioProtocolNotes :: "string option"

record ('f, 'sb) SessionState =
  questionBank :: "QuestionBank option"
  currentQuestionIndex :: nat
  selectedChoiceIndex :: "nat option"
  recordingState :: RecordingState
  recordingDurationMs :: int
  recordingStartTime :: "int option"
  openaiResult :: "('f, 'sb) ProviderResult"
  elevenlabsResult :: "('f, 'sb) ProviderResult"
  testMode :: TestMode
  openEndedResult :: "OpenAIScoreResult option"
  isAIScoring :: bool

text \<open>
  What the store imports and the sources at hand do not contain:
  \<^verbatim>\<open>calculateSimilarity\<close>, \<^verbatim>\<open>detectFillers\<close>, \<^verbatim>\<open>countTotalFillers\<close>,
  \<^verbatim>\<open>calculateStructure\<close> and the cost rates of \<^verbatim>\<open>app_config.json\<close>. They are
  parameters, collected in one record.
\<close>

record ('f, 'sb) ScoringDeps =
  calculateSimilarity :: "string \<Rightarrow> string \<Rightarrow> rat"
  detectFillers :: "string \<Rightarrow> 'f list"
  countTotalFillers :: "'f list \<Rightarrow> int"
  calculateStructure :: "string \<Rightarrow> StructureMode option \<Rightarrow> string list option \<Rightarrow> rat \<times> 'sb"
  costRates :: "ProviderId \<Rightarrow> rat"

definition createInitialProviderResult :: "('f, 'sb) ProviderResult" where
  "createInitialProviderResult =
     \<lparr>status = StIdle,
      transcript = \<lparr>interimText = [], committedText = [], finalText = []\<rparr>,
      words = None, durationMs = 0, fillers = [], metrics = None, breakdown = None,
      cost = None, errors = None\<rparr>"

definition getResult :: "ProviderId \<Rightarrow> ('f, 'sb) SessionState \<Rightarrow> ('f, 'sb) ProviderResult" where
  "getResult provider state =
     (case provider of OpenAI \<Rightarrow> openaiResult state | ElevenLabs \<Rightarrow> elevenlabsResult state)"

definition setResult ::
  "ProviderId \<Rightarrow> ('f, 'sb) ProviderResult \<Rightarrow> ('f, 'sb) SessionState \<Rightarrow> ('f, 'sb) SessionState" where
  "setResult provider r state =
     (case provider of
        OpenAI \<Rightarrow> state\<lparr>openaiResult := r\<rparr>
      | ElevenLabs \<Rightarrow> state\<lparr>elevenlabsResult := r\<rparr>)"

definition storeStartRecording :: "int \<Rightarrow> ('f, 'sb) SessionState \<Rightarrow> ('f, 'sb) SessionState" where
  "storeStartRecording now state =
     (if questionBank state = None then state
      else if testMode state = ReadAloud \<and> selectedChoiceIndex state = None then state
      else if recordingState state \<noteq> RecIdle then state
      else state\<lparr>recordingState := RecListening,
                 recordingStartTime := Some now,
                 recordingDurationMs := 0,
                 openaiResult := createInitialProviderResult\<lparr>status := StConnecting\<rparr>,
                 elevenlabsResult := createInitialProviderResult\<lparr>status := StConnecting\<rparr>,
                 openEndedResult := None,
                 isAIScoring := False\<rparr>)"

text \<open>
  \<^verbatim>\<open>recordingStartTime ? Date.now() - recordingStartTime : 0\<close>: a start time of 0 is
  falsy like \<^verbatim>\<open>null\<close>.
\<close>

definition storeStopRecording :: "int \<Rightarrow> ('f, 'sb) SessionState \<Rightarrow> ('f, 'sb) SessionState" where
  "storeStopRecording now state =
     (if recordingState state \<noteq> RecListening then state
      else (let durationMs =
                  (case recordingStartTime state of
                     None \<Rightarrow> 0
                   | Some t \<Rightarrow> if t = 0 then 0 else now - t)
            in state\<lparr>recordingState := RecProcessing,
                      recordingDurationMs := durationMs,
                      recordingStartTime := None\<rparr>))"

definition setRecordingCompleted :: "('f, 'sb) SessionState \<Rightarrow> ('f, 'sb) SessionState" where
  "setRecordingCompleted state = state\<lparr>recordingState := RecCompleted\<rparr>"

definition updateProviderStatus ::
  "ProviderId \<Rightarrow> ProviderStatus \<Rightarrow> ('f, 'sb) SessionState \<Rightarrow> ('f, 'sb) SessionState" where
  "updateProviderStatus provider st state =
     setResult provider ((getResult provider state)\<lparr>status := st\<rparr>) state"

definition applyPatch :: "TranscriptPatch \<Rightarrow> TranscriptState \<Rightarrow> TranscriptState" where
  "applyPatch p t =
     \<lparr>interimText = (case setInterimText p of Some x \<Rightarrow> x | None \<Rightarrow> interimText t),
      committedText = (case setCommittedText p of Some x \<Rightarrow> x | None \<Rightarrow> committedText t),
      finalText = (case setFinalText p of Some x \<Rightarrow> x | None \<Rightarrow> finalText t)\<rparr>"

definition updateProviderTranscript ::
  "ProviderId \<Rightarrow> TranscriptPatch \<Rightarrow> ('f, 'sb) SessionState \<Rightarrow> ('f, 'sb) SessionState" where
  "updateProviderTranscript provider p state =
     (let currentResult = getResult provider state
      in setResult provider
           (currentResult\<lparr>transcript := applyPatch p (transcript currentResult)\<rparr>) state)"

definition setProviderError ::
  "ProviderId \<Rightarrow> string \<Rightarrow> ('f, 'sb) SessionState \<Rightarrow> ('f, 'sb) SessionState" where
  "setProviderError provider e state =
     (let currentResult = getResult provider state
      in setResult provider
           (currentResult\<lparr>status := StError,
                           errors := Some ((case errors currentResult of None \<Rightarrow> [] | Some es \<Rightarrow> es) @ [e])\<rparr>)
           state)"

definition getCurrentQuestion :: "('f, 'sb) SessionState \<Rightarrow> Question option" where
  "getCurrentQuestion state =
     (case questionBank state of
        None \<Rightarrow> None
      | Some bank \<Rightarrow>
          if currentQuestionIndex state \<ge> length (questions bank) then None
          else Some (questions bank ! currentQuestionIndex state))"

text \<open>
  The expected answer of \<^verbatim>\<open>computeScores\<close> is \<^verbatim>\<open>options[selectedChoiceIndex]\<close> or
  \<^verbatim>\<open>expectedSpokenAnswer\<close>; either can be \<^verbatim>\<open>undefined\<close>, which
  \<^verbatim>\<open>normalizeRadioTranscript\<close> maps to the empty string, as it does the empty string:
  the model passes the empty string on.
\<close>

definition expectedAnswerFor :: "('f, 'sb) SessionState \<Rightarrow> Question \<Rightarrow> string" where
  "expectedAnswerFor state currentQuestion =
     (case selectedChoiceIndex state of
        Some i \<Rightarrow> (if i < length (options currentQuestion) then options currentQuestion ! i else [])
      | None \<Rightarrow> (case expectedSpokenAnswer currentQuestion of Some e \<Rightarrow> e | None \<Rightarrow> []))"

text \<open>\<^verbatim>\<open>computeScores\<close>. The cost estimate is a product of binary64 numbers.\<close>

definition computeScores ::
  "('f, 'sb) ScoringDeps \<Rightarrow> ProviderId \<Rightarrow> ('f, 'sb) SessionState \<Rightarrow> ('f, 'sb) SessionState" where
  "computeScores deps provider state =
     (let result = getResult provider state
      in case getCurrentQuestion state of
           None \<Rightarrow> state
         | Some currentQuestion \<Rightarrow>
             (let spoken = jsOr (jsOr (finalText (transcript result))
                                      (committedText (transcript result)))
                                (interimText (transcript result))
              in if spoken = [] then state
                 else
                   (let expected = expectedAnswerFor state currentQuestion;
                        accuracyResult = calculateAccuracy (calculateSimilarity deps) spoken expected;
                        fluencyResult =
                          calculateFluency (detectFillers deps) (countTotalFillers deps) spoken;
                        structureResult =
                          calculateStructure deps spoken (structureMode currentQuestion)
                            (expectedKeywords currentQuestion);
                        overallScore =
                          calculateOverall (of_int (fst accuracyResult)) (of_int (fst fluencyResult))
                            (fst structureResult);
                        newMetrics =
                          \<lparr>accuracy = fst accuracyResult, fluency = fst fluencyResult,
                           structureScore = fst structureResult, overall = overallScore\<rparr>;
                        newBreakdown =
                          \<lparr>accuracyBreakdown = snd accuracyResult,
                           fluencyBreakdown = snd fluencyResult,
                           structureBreakdown = snd structureResult\<rparr>;
                        durationMinutes = fl (of_int (durationMs result) / 60000);
                        estimatedCost = fl (costRates deps provider * durationMinutes);
                        updated =
                          setResult provider
                            (result\<lparr>status := StCompleted,
                                    fillers := fluencyFillers (snd fluencyResult),
                                    metrics := Some newMetrics,
                                    breakdown := Some newBreakdown,
                                    cost := Some \<lparr>currency = ''USD'', amount = estimatedCost,
                                                  costMethod = ''estimate''\<rparr>\<rparr>)
                            state
                    in if status (openaiResult updated) = StCompleted
                          \<and> status (elevenlabsResult updated) = StCompleted
                       then updated\<lparr>recordingState := RecCompleted\<rparr>
                       else updated)))"

section \<open>Dual recording hook (hooks/useDualSTT.ts)\<close>

text \<open>
  The state the two timeout callbacks and \<^verbatim>\<open>stopRecording\<close> read and write: the
  session store, the refs of the hook (the recording cycle counter, the audio chunker,
  the microphone stream, the registered listener clean-up functions), and what they do
  to the outside: for each provider whether the pool holds an adapter and whether it is
  connected, the \<^verbatim>\<open>endAudio\<close> calls made, and the timeouts scheduled with the cycle
  they were stamped with.
\<close>

datatype Timeout = FinalizationTimeout nat | MaxRecordingTimeout nat

record ('f, 'sb) HookWorld =
  store :: "('f, 'sb) SessionState"
  recordingCycleRef :: nat
  audioChunkerRef :: bool
  mediaStreamRef :: bool
  eventCleanupRef :: "ProviderId list"
  poolAdapterConnected :: "ProviderId \<Rightarrow> bool option"
  endAudioCalls :: "ProviderId list"
  scheduledTimeouts :: "Timeout list"

definition endAudioIfConnected :: "ProviderId \<Rightarrow> ('f, 'sb) HookWorld \<Rightarrow> ('f, 'sb) HookWorld" where
  "endAudioIfConnected provider w =
     (if poolAdapterConnected w provider = Some True
      then w\<lparr>endAudioCalls := endAudioCalls w @ [provider]\<rparr> else w)"

definition stopRecording :: "int \<Rightarrow> ('f, 'sb) HookWorld \<Rightarrow> ('f, 'sb) HookWorld" where
  "stopRecording now w =
     (let cycleAtStop = recordingCycleRef w;
          w = w\<lparr>store := storeStopRecording now (store w)\<rparr>;
          w = w\<lparr>audioChunkerRef := False\<rparr>;
          w = w\<lparr>mediaStreamRef := False\<rparr>;
          w = endAudioIfConnected OpenAI w;
          w = endAudioIfConnected ElevenLabs w
      in w\<lparr>scheduledTimeouts := scheduledTimeouts w @ [FinalizationTimeout cycleAtStop]\<rparr>)"

text \<open>
  The fallback of the finalization timeout for one provider. \<open>snapshot\<close> is the store
  as read once at the start of the callback; the updates go to the current store.
\<close>

definition forceCompletion ::
  "('f, 'sb) ScoringDeps \<Rightarrow> ProviderId \<Rightarrow> ('f, 'sb) SessionState \<Rightarrow> ('f, 'sb) SessionState
     \<Rightarrow> ('f, 'sb) SessionState" where
  "forceCompletion deps provider snapshot current =
     (if status (getResult provider snapshot) \<noteq> StCompleted then
        (let t = transcript (getResult provider snapshot)
         in if committedText t \<noteq> [] \<or> interimText t \<noteq> [] then
              computeScores deps provider
                (updateProviderTranscript provider
                   \<lparr>setInterimText = None, setCommittedText = None,
                    setFinalText = Some (jsOr (committedText t) (interimText t))\<rparr>
                   current)
            else current)
      else current)"

definition finalizationTimeoutCallback ::
  "('f, 'sb) ScoringDeps \<Rightarrow> nat \<Rightarrow> ('f, 'sb) HookWorld \<Rightarrow> ('f, 'sb) HookWorld" where
  "finalizationTimeoutCallback deps cycleAtStop w =
     (if recordingCycleRef w \<noteq> cycleAtStop then w
      else (let snapshot = store w;
                w = w\<lparr>store := forceCompletion deps OpenAI snapshot (store w)\<rparr>;
                w = w\<lparr>store := forceCompletion deps ElevenLabs snapshot (store w)\<rparr>;
                w = w\<lparr>store := setRecordingCompleted (store w)\<rparr>
            in w\<lparr>eventCleanupRef := []\<rparr>))"

definition maxRecordingTimeoutCallback ::
  "int \<Rightarrow> nat \<Rightarrow> ('f, 'sb) HookWorld \<Rightarrow> ('f, 'sb) HookWorld" where
  "maxRecordingTimeoutCallback now currentCycle w =
     (if recordingCycleRef w = currentCycle \<and> recordingState (store w) = RecListening
      then stopRecording now w else w)"

definition fireTimeout ::
  "('f, 'sb) ScoringDeps \<Rightarrow> int \<Rightarrow> Timeout \<Rightarrow> ('f, 'sb) HookWorld \<Rightarrow> ('f, 'sb) HookWorld" where
  "fireTimeout deps now t w =
     (case t of
        FinalizationTimeout c \<Rightarrow> finalizationTimeoutCallback deps c w
      | MaxRecordingTimeout c \<Rightarrow> maxRecordingTimeoutCallback now c w)"

section \<open>Connection pool (state/connectionPoolStore.ts)\<close>

record TokenInfo =
  token :: string
  websocketUrl :: string
  expiresAt :: int

record 'ad ConnectionPoolState =
  openaiToken :: "TokenInfo option"
  elevenlabsToken :: "TokenInfo option"
  openaiAdapter :: "'ad option"
  elevenlabsAdapter :: "'ad option"
  isInitializing :: bool
  isReady :: bool
  error :: "string option"
  reconnectAttempts :: nat

definition TOKEN_REFRESH_BUFFER_MS :: int where
  "TOKEN_REFRESH_BUFFER_MS = 60000"

definition isTokenExpired :: "int \<Rightarrow> TokenInfo option \<Rightarrow> bool" where
  "isTokenExpired now tok =
     (case tok of None \<Rightarrow> True | Some t \<Rightarrow> now \<ge> expiresAt t - TOKEN_REFRESH_BUFFER_MS)"

text \<open>
  The outside of \<^verbatim>\<open>initialize\<close>: each token fetch and each adapter connection is a
  promise that is fulfilled with a value or rejected with a reason. \<open>'ad\<close> is the type
  of a connected adapter. The pool's requests to the outside are recorded as effects.
\<close>

datatype 'a Settled = Fulfilled 'a | Rejected string

record 'ad PoolEnv =
  fetchOpenAIToken :: "TokenInfo Settled"
  fetchElevenLabsToken :: "TokenInfo Settled"
  createOpenAIAdapter :: "TokenInfo \<Rightarrow> 'ad Settled"
  createElevenLabsAdapter :: "TokenInfo \<Rightarrow> 'ad Settled"

datatype PoolEffect =
  FetchOpenAIToken | FetchElevenLabsToken | ConnectOpenAI TokenInfo | ConnectElevenLabs TokenInfo

definition settledValue :: "'a Settled \<Rightarrow> 'a option" where
  "settledValue r = (case r of Fulfilled v \<Rightarrow> Some v | Rejected _ \<Rightarrow> None)"

text \<open>
  The synchronous head of \<^verbatim>\<open>initialize\<close>, up to the first \<^verbatim>\<open>await\<close>: \<open>None\<close> when
  the call returns at one of the two guards, else the state after
  \<^verbatim>\<open>set({ isInitializing: true, error: null })\<close>, at which point the two token fetches
  are under way.
\<close>

definition initializeBegin :: "int \<Rightarrow> 'ad ConnectionPoolState \<Rightarrow> 'ad ConnectionPoolState option" where
  "initializeBegin now state =
     (if isInitializing state then None
      else if isReady state \<and> \<not> isTokenExpired now (openaiToken state)
                \<and> \<not> isTokenExpired now (elevenlabsToken state) then None
      else Some (state\<lparr>isInitializing := True, error := None\<rparr>))"

text \<open>
  The rest of the \<^verbatim>\<open>try\<close> block. \<^verbatim>\<open>Promise.allSettled\<close> never rejects and each
  connection promise carries its own \<^verbatim>\<open>catch\<close>, so a failed fetch or connection is a
  \<^verbatim>\<open>null\<close> token or adapter here and never reaches the \<^verbatim>\<open>catch\<close> block of
  \<^verbatim>\<open>initialize\<close>.
\<close>

definition initializeBody ::
  "'ad PoolEnv \<Rightarrow> 'ad ConnectionPoolState \<Rightarrow> 'ad ConnectionPoolState \<times> PoolEffect list" where
  "initializeBody env state =
     (let openaiTok = settledValue (fetchOpenAIToken env);
          elevenlabsTok = settledValue (fetchElevenLabsToken env);
          state = state\<lparr>openaiToken := openaiTok, elevenlabsToken := elevenlabsTok\<rparr>;
          openaiAd = (case openaiTok of
                        Some t \<Rightarrow> settledValue (createOpenAIAdapter env t) | None \<Rightarrow> None);
          elevenlabsAd = (case elevenlabsTok of
                            Some t \<Rightarrow> settledValue (createElevenLabsAdapter env t) | None \<Rightarrow> None);
          connects = (case openaiTok of Some t \<Rightarrow> [ConnectOpenAI t] | None \<Rightarrow> [])
                     @ (case elevenlabsTok of Some t \<Rightarrow> [ConnectElevenLabs t] | None \<Rightarrow> []);
          hasConnection = (openaiAd \<noteq> None \<or> elevenlabsAd \<noteq> None)
      in (state\<lparr>openaiAdapter := openaiAd,
                elevenlabsAdapter := elevenlabsAd,
                isInitializing := False,
                isReady := hasConnection,
                error := (if hasConnection then None
                          else Some ''Failed to establish any connections''),
                reconnectAttempts := 0\<rparr>,
          connects))"

definition initialize ::
  "'ad PoolEnv \<Rightarrow> int \<Rightarrow> 'ad ConnectionPoolState \<Rightarrow> 'ad ConnectionPoolState \<times> PoolEffect list" where
  "initialize env now state =
     (case initializeBegin now state of
        None \<Rightarrow> (state, [])
      | Some started \<Rightarrow>
          (let (finished, connects) = initializeBody env started
           in (finished, [FetchOpenAIToken, FetchElevenLabsToken] @ connects)))"

text \<open>Whether a provider's adapter connects: its token is fetched and the connection opens.\<close>

definition openaiConnects :: "'ad PoolEnv \<Rightarrow> bool" where
  "openaiConnects env =
     (case fetchOpenAIToken env of
        Fulfilled t \<Rightarrow> (case createOpenAIAdapter env t of Fulfilled _ \<Rightarrow> True | Rejected _ \<Rightarrow> False)
      | Rejected _ \<Rightarrow> False)"

definition elevenlabsConnects :: "'ad PoolEnv \<Rightarrow> bool" where
  "elevenlabsConnects env =
     (case fetchElevenLabsToken env of
        Fulfilled t \<Rightarrow> (case createElevenLabsAdapter env t of Fulfilled _ \<Rightarrow> True | Rejected _ \<Rightarrow> False)
      | Rejected _ \<Rightarrow> False)"

definition fetchCount :: "PoolEffect list \<Rightarrow> nat" where
  "fetchCount effs = length (filter (\<lambda>e. e = FetchOpenAIToken \<or> e = FetchElevenLabsToken) effs)"

section \<open>Open-ended scoring service (services/openaiChatScoring.ts)\<close>

record OpenAIScoreRequest =
  reqTranscript :: string
  expectedAnswer :: string
  scenarioPrompt :: string
  reqStructureMode :: StructureMode

datatype ChatRole = System | User | Assistant

record ChatMessage =
  role :: ChatRole
  content :: string

definition formatStructureMode :: "StructureMode \<Rightarrow> string" where
  "formatStructureMode m =
     (case m of
        Full \<Rightarrow> ''Full radio transmission (callsigns + message + closing)''
      | AckShort \<Rightarrow> ''Short acknowledgment format''
      | ClarifyRequest \<Rightarrow> ''Clarification request format'')"

definition buildUserPrompt :: "OpenAIScoreRequest \<Rightarrow> string" where
  "buildUserPrompt request =
     ''## EVALUATION REQUEST'' @ [CHR 0x0A, CHR 0x0A]
     @ ''### Scenario:'' @ [CHR 0x0A]
     @ scenarioPrompt request @ [CHR 0x0A, CHR 0x0A]
     @ ''### Structure Mode: '' @ formatStructureMode (reqStructureMode request) @ [CHR 0x0A, CHR 0x0A]
     @ ''### Expected Response:'' @ [CHR 0x0A]
     @ [CHR 0x22] @ expectedAnswer request @ [CHR 0x22, CHR 0x0A, CHR 0x0A]
     @ ''### Trainee'' @ [CHR 0x27] @ ''s Actual Response:'' @ [CHR 0x0A]
     @ [CHR 0x22] @ reqTranscript request @ [CHR 0x22, CHR 0x0A, CHR 0x0A]
     @ ''Please evaluate the trainee'' @ [CHR 0x27]
     @ ''s response and provide scores and feedback in the JSON format specified.''"

definition emptyResponseResult :: OpenAIScoreResult where
  "emptyResponseResult =
     \<lparr>aiAccuracy = 0, aiFluency = 100, aiStructure = 0, aiOverall = 15,
      feedback = ''No response was detected. Please speak your answer clearly.'',
      fillerWords = [], fillerCount = 0,
      radioProtocolNotes = Some ''No response provided.''\<rparr>"

text \<open>
  \<^verbatim>\<open>scoreWithOpenAI\<close>. The system prompt (loaded from \<^verbatim>\<open>scoring.md\<close>) and
  \<^verbatim>\<open>callChatAPI\<close> (the request to the chat proxy, which throws or returns a parsed
  result) are parameters. The second component of the result lists the network requests
  made.
\<close>

definition scoreWithOpenAI ::
  "string \<Rightarrow> (ChatMessage list \<Rightarrow> string + OpenAIScoreResult) \<Rightarrow> OpenAIScoreRequest
     \<Rightarrow> (string + OpenAIScoreResult) \<times> ChatMessage list list" where
  "scoreWithOpenAI systemPrompt callChatAPI request =
     (if reqTranscript request = [] \<or> length (trim (reqTranscript request)) = 0
      then (Inr emptyResponseResult, [])
      else (let messages = [\<lparr>role = System, content = systemPrompt\<rparr>,
                            \<lparr>role = User, content = buildUserPrompt request\<rparr>]
            in (callChatAPI messages, [messages])))"

section \<open>Initial states and concrete instances\<close>

text \<open>The initial state of the session store and of the connection pool store.\<close>

definition initialState :: "('f, 'sb) SessionState" where
  "initialState =
     \<lparr>questionBank = None, currentQuestionIndex = 0, selectedChoiceIndex = None,
      recordingState = RecIdle, recordingDurationMs = 0, recordingStartTime = None,
      openaiResult = createInitialProviderResult,
      elevenlabsResult = createInitialProviderResult,
      testMode = ReadAloud, openEndedResult = None, isAIScoring = False\<rparr>"

definition initialPoolState :: "'ad ConnectionPoolState" where
  "initialPoolState =
     \<lparr>openaiToken = None, elevenlabsToken = None, openaiAdapter = None,
      elevenlabsAdapter = None, isInitializing = False, isReady = False, error = None,
      reconnectAttempts = 0\<rparr>"

text \<open>
  Concrete instances, on which the theorems below are exercised: scoring dependencies
  (similarity 1 for equal normal forms and 0 otherwise, the letter u as the only filler,
  a constant structure score), a one-question bank, a session in which both providers
  are still processing after the recording stopped (OpenAI holding an interim text,
  ElevenLabs holding nothing), the hook around it in recording cycle 1, and a pool environment in which the OpenAI
  token fetch fails.
\<close>

definition demoDeps :: "(char, unit) ScoringDeps" where
  "demoDeps =
     \<lparr>calculateSimilarity = (\<lambda>a b. if a = b then 1 else 0),
      detectFillers = filter (\<lambda>c. c = CHR ''u''),
      countTotalFillers = (\<lambda>fs. int (length fs)),
      calculateStructure = (\<lambda>t m k. (100, ())),
      costRates = (\<lambda>p. 0)\<rparr>"

definition demoQuestion :: Question where
  "demoQuestion =
     \<lparr>prompt = ''Check in with ATC'',
      options = [''Bowser One'', ''Bowser Two'', ''Bowser Three'', ''Bowser Four''],
      correctIndex = 0, expectedSpokenAnswer = None, structureMode = Some AckShort,
      expectedKeywords = None\<rparr>"

definition demoSession :: "(char, unit) SessionState" where
  "demoSession =
     initialState
       \<lparr>questionBank := Some \<lparr>questions = [demoQuestion]\<rparr>,
        selectedChoiceIndex := Some 0,
        recordingState := RecProcessing,
        openaiResult := createInitialProviderResult
          \<lparr>status := StProcessing,
           transcript := \<lparr>interimText = ''Bowser 1'', committedText = [], finalText = []\<rparr>\<rparr>,
        elevenlabsResult := createInitialProviderResult\<lparr>status := StProcessing\<rparr>\<rparr>"

definition demoWorld :: "(char, unit) HookWorld" where
  "demoWorld =
     \<lparr>store = demoSession, recordingCycleRef = 1, audioChunkerRef = False,
      mediaStreamRef = False, eventCleanupRef = [OpenAI, ElevenLabs],
      poolAdapterConnected = (\<lambda>p. Some True), endAudioCalls = [OpenAI, ElevenLabs],
      scheduledTimeouts = [MaxRecordingTimeout 1, FinalizationTimeout 1]\<rparr>"

definition demoToken :: TokenInfo where
  "demoToken = \<lparr>token = ''tok'', websocketUrl = ''wss://stt.example/ws'', expiresAt = 900000\<rparr>"

definition demoEnv :: "nat PoolEnv" where
  "demoEnv =
     \<lparr>fetchOpenAIToken = Rejected ''Failed to fetch OpenAI token: 500'',
      fetchElevenLabsToken = Fulfilled demoToken,
      createOpenAIAdapter = (\<lambda>t. Rejected ''no connection''),
      createElevenLabsAdapter = (\<lambda>t. Fulfilled 7)\<rparr>"

definition demoReadyPool :: "nat ConnectionPoolState" where
  "demoReadyPool =
     initialPoolState
       \<lparr>openaiToken := Some demoToken, elevenlabsToken := Some demoToken,
        openaiAdapter := Some 3, elevenlabsAdapter := Some 7, isReady := True\<rparr>"

section \<open>Properties\<close>

subsection \<open>Character classes by bit pattern\<close>

text \<open>
  The character classes, decided on the eight bits of a character (\<open>b0\<close> the lowest).
  These equations are what evaluation uses; each is equivalent to the definition of the
  class by its list of members.
\<close>

lemma isWordChar_bits [code]:
  "isWordChar (Char b0 b1 b2 b3 b4 b5 b6 b7) =
     (\<not> b7 \<and>
      (if b6 then ((b0 \<or> b1 \<or> b2 \<or> b3 \<or> b4) \<and> \<not> (b4 \<and> b3 \<and> (b2 \<or> (b1 \<and> b0))))
                   \<or> (\<not> b5 \<and> b4 \<and> b3 \<and> b2 \<and> b1 \<and> b0)
       else b5 \<and> b4 \<and> \<not> (b3 \<and> (b2 \<or> b1))))"
  by (cases b0; cases b1; cases b2; cases b3; cases b4; cases b5; cases b6; cases b7; simp add: isWordChar_def)

lemma isDigit_bits [code]:
  "isDigit (Char b0 b1 b2 b3 b4 b5 b6 b7) =
     (\<not> b7 \<and> \<not> b6 \<and> b5 \<and> b4 \<and> \<not> (b3 \<and> (b2 \<or> b1)))"
  by (cases b0; cases b1; cases b2; cases b3; cases b4; cases b5; cases b6; cases b7; simp add: isDigit_def)

lemma isAsciiLetter_bits [code]:
  "isAsciiLetter (Char b0 b1 b2 b3 b4 b5 b6 b7) =
     (\<not> b7 \<and> b6 \<and> (b0 \<or> b1 \<or> b2 \<or> b3 \<or> b4)
      \<and> \<not> (b4 \<and> b3 \<and> (b2 \<or> (b1 \<and> b0))))"
  by (cases b0; cases b1; cases b2; cases b3; cases b4; cases b5; cases b6; cases b7; simp add: isAsciiLetter_def)

lemma isSpace_bits [code]:
  "isSpace (Char b0 b1 b2 b3 b4 b5 b6 b7) =
     (\<not> b6 \<and> \<not> b4 \<and>
      (if b5 then \<not> b3 \<and> \<not> b2 \<and> \<not> b1 \<and> \<not> b0
       else \<not> b7 \<and> b3 \<and> (if b2 then \<not> b1 else (b1 \<or> b0))))"
  by (cases b0; cases b1; cases b2; cases b3; cases b4; cases b5; cases b6; cases b7; simp add: isSpace_def)

lemma isPunctuation_bits [code]:
  "isPunctuation (Char b0 b1 b2 b3 b4 b5 b6 b7) =
     (\<not> b7 \<and> \<not> b6 \<and> b5 \<and>
      (if b4 then b3 \<and> (if b2 then b1 \<and> b0 else b1)
       else (if b3 then b2 \<and> \<not> b0
             else (if b2 then b1 \<and> b0 else (b1 \<noteq> b0)))))"
  by (cases b0; cases b1; cases b2; cases b3; cases b4; cases b5; cases b6; cases b7; simp add: isPunctuation_def)

lemma isUpperChar_bits [code]:
  "isUpperChar (Char b0 b1 b2 b3 b4 b5 b6 b7) =
     (b6 \<and> \<not> b5 \<and>
      (if b7 then \<not> (b4 \<and> b2 \<and> b1 \<and> b0)
       else (b0 \<or> b1 \<or> b2 \<or> b3 \<or> b4) \<and> \<not> (b4 \<and> b3 \<and> (b2 \<or> (b1 \<and> b0)))))"
  by (cases b0; cases b1; cases b2; cases b3; cases b4; cases b5; cases b6; cases b7; simp add: isUpperChar_def upperChars_def latin1Upper_def)

lemma isLowerAscii_bits [code]:
  "isLowerAscii (Char b0 b1 b2 b3 b4 b5 b6 b7) =
     (\<not> b7 \<and> b6 \<and> b5 \<and> (b0 \<or> b1 \<or> b2 \<or> b3 \<or> b4)
      \<and> \<not> (b4 \<and> b3 \<and> (b2 \<or> (b1 \<and> b0))))"
  by (cases b0; cases b1; cases b2; cases b3; cases b4; cases b5; cases b6; cases b7; simp add: isLowerAscii_def lowerChars_def)

subsection \<open>Fluency\<close>

text \<open>
  Claim C2. For every transcript the fluency score is 100 minus min(50, 5 * fillerCount),
  where fillerCount is the number of detected fillers; hence the score never falls below
  50, and a transcript with at least as many fillers as another never scores higher.
\<close>

theorem C2_fluency_formula_floor_monotone:
  fixes detectFillers :: "string \<Rightarrow> 'f list" and countTotalFillers :: "'f list \<Rightarrow> int"
  shows "fluencyScore detectFillers countTotalFillers t
           = 100 - min 50 (5 * detectedFillerCount detectFillers countTotalFillers t)
         \<and> 50 \<le> fluencyScore detectFillers countTotalFillers t
         \<and> (detectedFillerCount detectFillers countTotalFillers t
               \<le> detectedFillerCount detectFillers countTotalFillers t'
             \<longrightarrow> fluencyScore detectFillers countTotalFillers t'
               \<le> fluencyScore detectFillers countTotalFillers t)"
  by (auto simp: fluencyScore_def detectedFillerCount_def calculateFluency_def Let_def min_def)

theorem C2_fluency_witness:
  "detectedFillerCount (filter (\<lambda>c. c = CHR ''u'')) (\<lambda>fs. int (length fs)) ''u no''
     \<le> detectedFillerCount (filter (\<lambda>c. c = CHR ''u'')) (\<lambda>fs. int (length fs)) ''u u no''
   \<and> fluencyScore (filter (\<lambda>c. c = CHR ''u'')) (\<lambda>fs. int (length fs)) ''u u no'' = 90
   \<and> fluencyScore (filter (\<lambda>c. c = CHR ''u'')) (\<lambda>fs. int (length fs)) ''u no'' = 95"
  using C2_fluency_formula_floor_monotone
    [of "filter (\<lambda>c. c = CHR ''u'')" "\<lambda>fs. int (length fs)" "''u no''" "''u u no''"]
  by (simp add: detectedFillerCount_def fluencyScore_def calculateFluency_def)

subsection \<open>Overall score\<close>










lemma jsRound_100: "jsRound 100 = 100"
  by (simp add: jsRound_def floor_eq_iff)















text \<open>
  The fluency score matters here. 31 is not a score \<^verbatim>\<open>calculateFluency\<close> returns;
  for the numbers (0, 31, 1) the exact weighted sum is the tie 9.5, while in binary64
  \<^verbatim>\<open>0.3 * 31\<close> is 9.299999999999999 and adding \<^verbatim>\<open>0.2 * 1\<close> gives
  9.499999999999998, which rounds to 9.
\<close>

lemma calculateOverall_0_31_1: "calculateOverall 0 31 1 = 9 \<and> overallExact 0 31 1 = 10"
  by code_simp

subsection \<open>Normalization: normal forms of the reference phrases\<close>

lemma nf_bowser_1: "normalizeRadioTranscript ''Bowser 1'' = ''bowser one''" by code_simp
lemma nf_bowser_one: "normalizeRadioTranscript ''Bowser One'' = ''bowser one''" by code_simp
lemma nf_bowser_two: "normalizeRadioTranscript ''Bowser Two'' = ''bowser two''" by code_simp
lemma nf_runway_27: "normalizeRadioTranscript ''runway 27'' = ''runway two seven''" by code_simp
lemma nf_runway_25: "normalizeRadioTranscript ''runway 25'' = ''runway two five''" by code_simp
lemma nf_runway_two_seven: "normalizeRadioTranscript ''runway two seven'' = ''runway two seven''" by code_simp
lemma nf_runway_twenty_seven: "normalizeRadioTranscript ''runway twenty seven'' = ''runway two seven''" by code_simp
lemma nf_roger_dot_that: "normalizeRadioTranscript ''roger.that'' = ''roger that''" by code_simp
lemma nf_roger_that: "normalizeRadioTranscript ''roger that'' = ''roger''" by code_simp

text \<open>
  Claim C4. Normalization equates the digit and the spoken forms of a number (Bowser 1 and
  Bowser One; runway 27 and runway two seven), expands a compound (runway twenty seven and
  runway two seven), and keeps different numbers apart (runway 27 and runway 25; Bowser One
  and Bowser Two).
\<close>

theorem C4_digit_word_equivalence:
  "normalizeRadioTranscript ''Bowser 1'' = normalizeRadioTranscript ''Bowser One''
   \<and> normalizeRadioTranscript ''runway 27'' = normalizeRadioTranscript ''runway two seven''
   \<and> normalizeRadioTranscript ''runway twenty seven'' = normalizeRadioTranscript ''runway two seven''
   \<and> normalizeRadioTranscript ''runway 27'' \<noteq> normalizeRadioTranscript ''runway 25''
   \<and> normalizeRadioTranscript ''Bowser One'' \<noteq> normalizeRadioTranscript ''Bowser Two''"
  by (simp add: nf_bowser_1 nf_bowser_one nf_bowser_two nf_runway_27 nf_runway_25
        nf_runway_two_seven nf_runway_twenty_seven)

text \<open>
  Normalization is not idempotent on every input: punctuation is removed after the
  phrase patterns have been applied, so \<^verbatim>\<open>roger.that\<close> normalizes to
  \<^verbatim>\<open>roger that\<close>, which normalizes to \<^verbatim>\<open>roger\<close>.
\<close>

theorem C3_not_idempotent:
  "normalizeRadioTranscript ''roger.that'' = ''roger that''
   \<and> normalizeRadioTranscript (normalizeRadioTranscript ''roger.that'') = ''roger''
   \<and> normalizeRadioTranscript (normalizeRadioTranscript ''roger.that'')
       \<noteq> normalizeRadioTranscript ''roger.that''"
  by (simp add: nf_roger_dot_that nf_roger_that)

subsection \<open>Normalizing a normal form\<close>

subsubsection \<open>The matcher: what a match consumes and captures\<close>

lemma tryDown_SomeD:
  "tryDown lo n k = Some x \<Longrightarrow> \<exists>m. lo \<le> m \<and> m \<le> n \<and> k m = Some x"
proof (induction n)
  case 0
  then show ?case by (auto split: if_splits)
next
  case (Suc n)
  show ?case
  proof (cases "Suc n < lo")
    case True
    with Suc.prems show ?thesis by simp
  next
    case False
    show ?thesis
    proof (cases "k (Suc n)")
      case None
      with False Suc.prems have "tryDown lo n k = Some x" by simp
      from Suc.IH[OF this] show ?thesis by (auto intro: le_SucI)
    next
      case (Some y)
      with False Suc.prems have "k (Suc n) = Some x" by simp
      with False show ?thesis by (intro exI[of _ "Suc n"]) simp
    qed
  qed
qed

text \<open>
  \<open>fromText t s\<close>: the state \<open>s\<close> is a position in the text \<open>t\<close>, and its captures are
  made of characters of \<open>t\<close>.
\<close>

lemma advance_remaining: "remaining (advance n s) = drop n (remaining s)"
  by (simp add: advance_def)

lemma advance_captures: "captures (advance n s) = captures s"
  by (simp add: advance_def)

lemma rxm_fromText:
  assumes "\<exists>j. remaining s = drop j t" and "\<forall>(g, c) \<in> set (captures s). set c \<subseteq> set t"
    and "rxm r s k = Some x"
  shows "\<exists>s'. (\<exists>j. remaining s' = drop j t) \<and> (\<forall>(g, c) \<in> set (captures s'). set c \<subseteq> set t)
              \<and> k s' = Some x"
  using assms
proof (induction r arbitrary: s k)
  case (Lit l)
  then have k: "k (advance (length l) s) = Some x" by (simp split: if_splits)
  from Lit.prems(1) obtain j where "remaining s = drop j t" by blast
  then have "remaining (advance (length l) s) = drop (j + length l) t"
    by (simp add: advance_remaining add.commute)
  with k Lit.prems(2) show ?case
    by (intro exI[of _ "advance (length l) s"]) (auto simp: advance_captures)
next
  case (Cls p)
  then have k: "k (advance 1 s) = Some x" by (simp split: list.splits if_splits)
  from Cls.prems(1) obtain j where "remaining s = drop j t" by blast
  then have "remaining (advance 1 s) = drop (j + 1) t"
    by (simp add: advance_remaining add.commute)
  with k Cls.prems(2) show ?case
    by (intro exI[of _ "advance 1 s"]) (auto simp: advance_captures)
next
  case (Star p)
  then obtain m where k: "k (advance m s) = Some x"
    by (auto dest: tryDown_SomeD)
  from Star.prems(1) obtain j where "remaining s = drop j t" by blast
  then have "remaining (advance m s) = drop (j + m) t"
    by (simp add: advance_remaining add.commute)
  with k Star.prems(2) show ?case
    by (intro exI[of _ "advance m s"]) (auto simp: advance_captures)
next
  case (Plus p)
  then obtain m where k: "k (advance m s) = Some x"
    by (auto dest: tryDown_SomeD)
  from Plus.prems(1) obtain j where "remaining s = drop j t" by blast
  then have "remaining (advance m s) = drop (j + m) t"
    by (simp add: advance_remaining add.commute)
  with k Plus.prems(2) show ?case
    by (intro exI[of _ "advance m s"]) (auto simp: advance_captures)
next
  case Bnd
  then show ?case by (auto split: if_splits)
next
  case (Grp g r)
  let ?k = "\<lambda>s'. k (s'\<lparr>captures :=
        (g, take (length (remaining s) - length (remaining s')) (remaining s)) # captures s'\<rparr>)"
  from Grp.prems(3) have "rxm r s ?k = Some x" by simp
  from Grp.IH[OF Grp.prems(1) Grp.prems(2) this]
  obtain s1 where s1: "\<exists>j. remaining s1 = drop j t"
      "\<forall>(g, c) \<in> set (captures s1). set c \<subseteq> set t" "?k s1 = Some x"
    by blast
  let ?s' = "s1\<lparr>captures :=
        (g, take (length (remaining s) - length (remaining s1)) (remaining s)) # captures s1\<rparr>"
  from Grp.prems(1) obtain j where "remaining s = drop j t" by blast
  then have "set (take (length (remaining s) - length (remaining s1)) (remaining s)) \<subseteq> set t"
    by (metis set_take_subset set_drop_subset subset_trans)
  with s1 show ?case
    by (intro exI[of _ ?s']) auto
next
  case (Opt r)
  show ?case
  proof (cases "rxm r s k")
    case None
    with Opt.prems have "k s = Some x" by simp
    with Opt.prems show ?thesis by blast
  next
    case (Some y)
    with Opt.prems have "rxm r s k = Some x" by simp
    from Opt.IH[OF Opt.prems(1) Opt.prems(2) this] show ?thesis .
  qed
next
  case (Alt a b)
  show ?case
  proof (cases "rxm a s k")
    case None
    with Alt.prems have "rxm b s k = Some x" by simp
    from Alt.IH(2)[OF Alt.prems(1) Alt.prems(2) this] show ?thesis .
  next
    case (Some y)
    with Alt.prems have "rxm a s k = Some x" by simp
    from Alt.IH(1)[OF Alt.prems(1) Alt.prems(2) this] show ?thesis .
  qed
next
  case (Seq a b)
  from Seq.prems(3) have "rxm a s (\<lambda>s'. rxm b s' k) = Some x" by simp
  from Seq.IH(1)[OF Seq.prems(1) Seq.prems(2) this]
  obtain s1 where s1: "\<exists>j. remaining s1 = drop j t"
      "\<forall>(g, c) \<in> set (captures s1). set c \<subseteq> set t" "rxm b s1 k = Some x"
    by blast
  from Seq.IH(2)[OF s1] show ?case .
qed

lemma execAt_captures:
  assumes "execAt r prev t = Some (g, n)"
  shows "n \<le> length t" and "g i = Some c \<Longrightarrow> set c \<subseteq> set t"
proof -
  let ?s0 = "\<lparr>prevChar = prev, remaining = t, captures = []\<rparr>"
  let ?k = "\<lambda>s'. Some (map_of (captures s'), length t - length (remaining s'))"
  have a: "\<exists>j. remaining ?s0 = drop j t" by (intro exI[of _ 0]) simp
  have b: "\<forall>(g, c) \<in> set (captures ?s0). set c \<subseteq> set t" by simp
  from assms have "rxm r ?s0 ?k = Some (g, n)" by (simp add: execAt_def)
  from rxm_fromText[OF a b this]
  have "\<exists>s' :: mstate. (\<exists>j. remaining s' = drop j t)
             \<and> (\<forall>(g, c) \<in> set (captures s'). set c \<subseteq> set t)
             \<and> map_of (captures s') = g \<and> length t - length (remaining s') = n"
    by simp
  then obtain s' :: mstate where s': "\<forall>(g, c) \<in> set (captures s'). set c \<subseteq> set t"
      and g: "map_of (captures s') = g" and n: "length t - length (remaining s') = n"
    by (elim exE conjE)
  show "n \<le> length t" using n by simp
  show "set c \<subseteq> set t" if "g i = Some c"
  proof -
    from that have "map_of (captures s') i = Some c" by (simp only: g)
    then have "(i, c) \<in> set (captures s')" by (rule map_of_SomeD)
    with s' show ?thesis by fast
  qed
qed

lemma grp_subset:
  assumes "execAt r prev t = Some (g, n)"
  shows "set (grp g i) \<subseteq> set t"
proof (cases "g i")
  case None
  then show ?thesis by (simp add: grp_def)
next
  case (Some c)
  with execAt_captures(2)[OF assms Some] show ?thesis by (simp add: grp_def)
qed

subsubsection \<open>Replacement keeps a property of all characters\<close>

lemma list_all_subset: "set u \<subseteq> set t \<Longrightarrow> list_all Q t \<Longrightarrow> list_all Q u"
  by (auto simp: list_all_iff)

lemma replaceFrom_all:
  assumes f: "\<And>u g. list_all Q u \<Longrightarrow> (\<And>i. list_all Q (grp g i)) \<Longrightarrow> list_all Q (f u g)"
  shows "list_all Q t \<Longrightarrow> list_all Q (replaceFrom r f prev skip t)"
proof (induction t arbitrary: prev skip)
  case Nil
  show ?case
  proof (cases "execAt r prev []")
    case None
    then show ?thesis by simp
  next
    case (Some a)
    obtain g n where a: "a = (g, n)" by (cases a)
    have "\<And>i. list_all Q (grp g i)"
      using grp_subset[OF Some[unfolded a]] by (simp add: list_all_iff)
    then have "list_all Q (f [] g)" by (intro f) simp_all
    with Some a show ?thesis by simp
  qed
next
  case (Cons c cs)
  have hd: "Q c" and tl: "list_all Q cs" using Cons.prems by simp_all
  show ?case
  proof (cases skip)
    case (Suc j)
    have "replaceFrom r f prev skip (c # cs) = replaceFrom r f (Some c) j cs"
      using Suc by simp
    with Cons.IH[OF tl] show ?thesis by simp
  next
    case 0
    show ?thesis
    proof (cases "execAt r prev (c # cs)")
      case None
      have "replaceFrom r f prev skip (c # cs) = c # replaceFrom r f (Some c) 0 cs"
        using 0 None by simp
      with Cons.IH[OF tl] hd show ?thesis by simp
    next
      case (Some a)
      obtain g n where a: "a = (g, n)" by (cases a)
      have caps: "\<And>i. list_all Q (grp g i)"
        by (rule list_all_subset[OF grp_subset[OF Some[unfolded a]] Cons.prems])
      have "list_all Q (take n (c # cs))"
        by (rule list_all_subset[OF set_take_subset Cons.prems])
      then have rep1: "list_all Q (f (take n (c # cs)) g)" using caps by (rule f)
      have rep0: "list_all Q (f [] g)" using caps by (intro f) simp_all
      show ?thesis
      proof (cases "n = 0")
        case True
        have "replaceFrom r f prev skip (c # cs) = f [] g @ c # replaceFrom r f (Some c) 0 cs"
          using 0 Some a True by simp
        with rep0 hd Cons.IH[OF tl] show ?thesis by simp
      next
        case False
        have "replaceFrom r f prev skip (c # cs)
            = f (take n (c # cs)) g @ replaceFrom r f (Some c) (n - 1) cs"
          using 0 Some a False by simp
        with rep1 Cons.IH[OF tl] show ?thesis by simp
      qed
    qed
  qed
qed

lemma replaceAll_all:
  assumes "\<And>u g. list_all Q u \<Longrightarrow> (\<And>i. list_all Q (grp g i)) \<Longrightarrow> list_all Q (f u g)"
    and "list_all Q t"
  shows "list_all Q (replaceAll r f t)"
  unfolding replaceAll_def using assms by (rule replaceFrom_all)

lemma replaceWith_all:
  assumes "list_all Q rep" and "list_all Q t"
  shows "list_all Q (replaceWith r rep t)"
  unfolding replaceWith_def using assms by (intro replaceAll_all) simp_all

subsubsection \<open>The number and phrase stages write small letters, digits and spaces\<close>

lemma tables_plain:
  "list_all (\<lambda>(k, v). list_all (\<lambda>c. toLowerChar c = c \<and> c \<noteq> CHR ''-'') v) DIGIT_TO_WORD"
  "list_all (\<lambda>(k, v). list_all (\<lambda>c. toLowerChar c = c \<and> c \<noteq> CHR ''-'') v) WORD_TO_DIGIT"
  "list_all (\<lambda>(k, v). list_all (\<lambda>c. toLowerChar c = c \<and> c \<noteq> CHR ''-'') v) COMPOUND_NUMBERS"
  by code_simp+

lemma phrases_plain:
  "list_all (\<lambda>c. toLowerChar c = c \<and> c \<noteq> CHR ''-'') ''over and out''"
  "list_all (\<lambda>c. toLowerChar c = c \<and> c \<noteq> CHR ''-'') ''roger''"
  "list_all (\<lambda>c. toLowerChar c = c \<and> c \<noteq> CHR ''-'') ''copy''"
  "list_all (\<lambda>c. toLowerChar c = c \<and> c \<noteq> CHR ''-'') ''ground''"
  "list_all (\<lambda>c. toLowerChar c = c \<and> c \<noteq> CHR ''-'') ''atc''"
  "list_all (\<lambda>c. toLowerChar c = c \<and> c \<noteq> CHR ''-'') ''undefined''"
  "list_all (\<lambda>c. toLowerChar c = c \<and> c \<noteq> CHR ''-'') ''runway ''"
  "list_all (\<lambda>c. toLowerChar c = c \<and> c \<noteq> CHR ''-'') ''taxiway ''"
  "list_all (\<lambda>c. toLowerChar c = c \<and> c \<noteq> CHR ''-'') '' ''"
  by code_simp+

lemma lookupOr_all:
  assumes "list_all (\<lambda>(k, v). list_all Q v) tbl" and "list_all Q dflt"
  shows "list_all Q (lookupOr tbl key dflt)"
proof (cases "map_of tbl key")
  case None
  with assms show ?thesis by (simp add: lookupOr_def)
next
  case (Some v)
  then have "(key, v) \<in> set tbl" by (rule map_of_SomeD)
  with assms(1) have "list_all Q v" by (auto simp: list_all_iff)
  with Some assms(2) show ?thesis by (simp add: lookupOr_def)
qed

lemma joinWith_all:
  assumes "list_all Q sep" and "list_all (list_all Q) xs"
  shows "list_all Q (joinWith sep xs)"
  using assms by (induction sep xs rule: joinWith.induct) simp_all

lemma digitsToSpoken_all:
  assumes "list_all (\<lambda>c. toLowerChar c = c \<and> c \<noteq> CHR ''-'') digits"
  shows "list_all (\<lambda>c. toLowerChar c = c \<and> c \<noteq> CHR ''-'') (digitsToSpoken digits)"
proof -
  let ?Q = "\<lambda>c. toLowerChar c = c \<and> c \<noteq> CHR ''-''"
  have "list_all ?Q (lookupOr DIGIT_TO_WORD [d] [d])" if "d \<in> set digits" for d
  proof (rule lookupOr_all[OF tables_plain(1)])
    from that assms show "list_all ?Q [d]" by (simp add: list_all_iff)
  qed
  then have "list_all (list_all ?Q) (map (\<lambda>d. lookupOr DIGIT_TO_WORD [d] [d]) digits)"
    by (simp add: list_all_iff)
  with phrases_plain(9) show ?thesis
    unfolding digitsToSpoken_def by (rule joinWith_all)
qed

lemma tensReplacer_all:
  assumes "\<And>i. list_all (\<lambda>c. toLowerChar c = c \<and> c \<noteq> CHR ''-'') (grp g i)"
  shows "list_all (\<lambda>c. toLowerChar c = c \<and> c \<noteq> CHR ''-'') (tensReplacer m g)"
proof -
  let ?Q = "\<lambda>c. toLowerChar c = c \<and> c \<noteq> CHR ''-''"
  let ?tensDigit = "lookupOr COMPOUND_NUMBERS (toLowerCase (grp g 1)) (grp g 1)"
  let ?onesDigit = "lookupOr WORD_TO_DIGIT (toLowerCase (grp g 2)) (grp g 2)"
  have td: "list_all ?Q ?tensDigit"
    by (rule lookupOr_all[OF tables_plain(3) assms])
  have od: "list_all ?Q ?onesDigit"
    by (rule lookupOr_all[OF tables_plain(2) assms])
  have ow: "list_all ?Q (lookupOr DIGIT_TO_WORD ?onesDigit ?onesDigit)"
    by (rule lookupOr_all[OF tables_plain(1) od])
  have tf: "list_all ?Q (takeWhile (\<lambda>c. c \<noteq> CHR '' '') ?tensDigit)"
    by (rule list_all_subset[OF _ td]) (auto dest: set_takeWhileD)
  show ?thesis
    unfolding tensReplacer_def Let_def
    by (simp only: list_all_append td ow tf phrases_plain(9) simp_thms if_split)
qed

lemma foldl_replaceWith_all:
  assumes "list_all (\<lambda>(k, v). list_all Q (F v)) tbl" and "list_all Q t"
  shows "list_all Q (foldl (\<lambda>result (w, v). replaceWith (P w) (F v) result) t tbl)"
  using assms
proof (induction tbl arbitrary: t)
  case Nil
  then show ?case by simp
next
  case (Cons a tbl)
  obtain w v where a: "a = (w, v)" by (cases a)
  have "list_all Q (replaceWith (P w) (F v) t)"
    using Cons.prems a by (intro replaceWith_all) simp_all
  moreover have "list_all (\<lambda>(k, v). list_all Q (F v)) tbl" using Cons.prems by simp
  ultimately show ?case using a by (simp add: Cons.IH)
qed

lemma toLowerCase_plain:
  "list_all (\<lambda>c. toLowerChar c = c \<and> c \<noteq> CHR ''-'') t \<Longrightarrow> toLowerCase t = t"
  unfolding toLowerCase_def by (induction t) simp_all

lemma expandCompoundNumbers_all:
  assumes "list_all (\<lambda>c. toLowerChar c = c \<and> c \<noteq> CHR ''-'') t"
  shows "list_all (\<lambda>c. toLowerChar c = c \<and> c \<noteq> CHR ''-'') (expandCompoundNumbers t)"
proof -
  let ?Q = "\<lambda>c. toLowerChar c = c \<and> c \<noteq> CHR ''-''"
  have "list_all ?Q (replaceAll tensPattern tensReplacer (toLowerCase t))"
    unfolding toLowerCase_plain[OF assms]
    by (rule replaceAll_all[OF tensReplacer_all assms])
  then show ?thesis
    unfolding expandCompoundNumbers_def
    by (rule foldl_replaceWith_all[where F = "\<lambda>v. v", OF tables_plain(3)])
qed

lemma normalizeRadioNumbers_all:
  assumes "list_all (\<lambda>c. toLowerChar c = c \<and> c \<noteq> CHR ''-'') t"
  shows "list_all (\<lambda>c. toLowerChar c = c \<and> c \<noteq> CHR ''-'') (normalizeRadioNumbers t)"
proof -
  let ?Q = "\<lambda>c. toLowerChar c = c \<and> c \<noteq> CHR ''-''"
  define r1 where "r1 = expandCompoundNumbers t"
  define r2 where "r2 = foldl (\<lambda>result (word, digit).
                      replaceWith (wordPattern word)
                        (case map_of DIGIT_TO_WORD digit of Some w \<Rightarrow> w | None \<Rightarrow> ''undefined'')
                        result)
                    r1 WORD_TO_DIGIT"
  define r3 where "r3 = replaceAll callsignPrefixPattern
                     (\<lambda>_ g. grp g 1 @ '' '' @ digitsToSpoken (grp g 2)) r2"
  define r4 where "r4 = replaceAll runwayPattern
                     (\<lambda>_ g. ''runway '' @ digitsToSpoken (grp g 1)) r3"
  define r5 where "r5 = replaceAll taxiwayPattern
                     (\<lambda>_ g. ''taxiway '' @ grp g 1 @ '' '' @ digitsToSpoken (grp g 2)) r4"
  define r6 where "r6 = replaceAll headingPattern
                     (\<lambda>_ g. grp g 1 @ '' '' @ digitsToSpoken (grp g 2)) r5"
  have n: "normalizeRadioNumbers t = r6"
    by (simp add: normalizeRadioNumbers_def Let_def r1_def r2_def r3_def r4_def r5_def r6_def)
  have w: "list_all ?Q (case map_of DIGIT_TO_WORD d of Some w \<Rightarrow> w | None \<Rightarrow> ''undefined'')" for d
  proof (cases "map_of DIGIT_TO_WORD d")
    case None
    then show ?thesis by (simp only: option.case phrases_plain(6))
  next
    case (Some v)
    then have "(d, v) \<in> set DIGIT_TO_WORD" by (rule map_of_SomeD)
    with tables_plain(1) have "list_all ?Q v" by (auto simp: list_all_iff)
    with Some show ?thesis by (simp only: option.case)
  qed
  have q1: "list_all ?Q r1" unfolding r1_def by (rule expandCompoundNumbers_all[OF assms])
  have q2: "list_all ?Q r2"
    unfolding r2_def
    by (rule foldl_replaceWith_all[where F = "\<lambda>d. case map_of DIGIT_TO_WORD d of Some w \<Rightarrow> w | None \<Rightarrow> ''undefined''", OF _ q1])
       (simp add: list_all_iff split_beta w[unfolded list_all_iff])
  have q3: "list_all ?Q r3"
    unfolding r3_def
    by (rule replaceAll_all[OF _ q2])
       (simp only: list_all_append digitsToSpoken_all phrases_plain simp_thms)
  have q4: "list_all ?Q r4"
    unfolding r4_def
    by (rule replaceAll_all[OF _ q3])
       (simp only: list_all_append digitsToSpoken_all phrases_plain simp_thms)
  have q5: "list_all ?Q r5"
    unfolding r5_def
    by (rule replaceAll_all[OF _ q4])
       (simp only: list_all_append digitsToSpoken_all phrases_plain simp_thms)
  have q6: "list_all ?Q r6"
    unfolding r6_def
    by (rule replaceAll_all[OF _ q5])
       (simp only: list_all_append digitsToSpoken_all phrases_plain simp_thms)
  show ?thesis unfolding n by (rule q6)
qed

lemma normalizeRadioPhrases_all:
  assumes "list_all (\<lambda>c. toLowerChar c = c \<and> c \<noteq> CHR ''-'') t"
  shows "list_all (\<lambda>c. toLowerChar c = c \<and> c \<noteq> CHR ''-'') (normalizeRadioPhrases t)"
  unfolding normalizeRadioPhrases_def Let_def
  by (intro replaceWith_all phrases_plain assms)

subsubsection \<open>Replacing single characters\<close>

lemma execAt_Cls:
  "execAt (Cls P) prev [] = None"
  "execAt (Cls P) prev (c # cs) = (if P c then Some (Map.empty, 1) else None)"
  by (simp_all add: execAt_def advance_def)

lemma canonChar_hyphen: "canonChar c = canonChar CHR ''-'' \<longleftrightarrow> c = CHR ''-''"
proof -
  have h: "canonChar CHR ''-'' = CHR ''-''" by code_simp
  obtain b0 b1 b2 b3 b4 b5 b6 b7 where c: "c = Char b0 b1 b2 b3 b4 b5 b6 b7" by (cases c)
  show ?thesis
    unfolding h c canonChar_def isLowerAscii_bits clearBit5_def
    by (cases b0; cases b1; cases b2; cases b3; cases b4; cases b5; cases b6; cases b7; simp)
qed

lemma execAt_Lit_hyphen:
  "execAt (Lit ''-'') prev [] = None"
  "execAt (Lit ''-'') prev (c # cs) = (if c = CHR ''-'' then Some (Map.empty, 1) else None)"
  by (simp_all add: execAt_def advance_def canonChar_hyphen)

lemma replaceFrom_single:
  assumes "\<And>prev. execAt r prev [] = None"
    and "\<And>prev c cs. execAt r prev (c # cs) = (if P c then Some (Map.empty, 1) else None)"
  shows "replaceFrom r (\<lambda>_ _. rep) prev 0 t = concat (map (\<lambda>c. if P c then rep else [c]) t)"
  by (induction t arbitrary: prev) (simp_all add: assms)

lemma replace_punctuation:
  "replaceWith (Cls isPunctuation) '' '' t
     = concat (map (\<lambda>c. if isPunctuation c then '' '' else [c]) t)"
  unfolding replaceWith_def replaceAll_def
  by (rule replaceFrom_single) (simp_all only: execAt_Cls)

lemma replace_hyphen:
  "replaceWith (Lit ''-'') '' '' t = concat (map (\<lambda>c. if c = CHR ''-'' then '' '' else [c]) t)"
  unfolding replaceWith_def replaceAll_def
  by (rule replaceFrom_single) (simp_all only: execAt_Lit_hyphen)

lemma concat_map_single: "\<forall>c\<in>set t. \<not> P c \<Longrightarrow> concat (map (\<lambda>c. if P c then rep else [c]) t) = t"
  by (induction t) simp_all

lemma replace_punctuation_id:
  "list_all (\<lambda>c. \<not> isPunctuation c) t \<Longrightarrow> replaceWith (Cls isPunctuation) '' '' t = t"
  unfolding replace_punctuation by (rule concat_map_single) (simp add: list_all_iff)

lemma replace_hyphen_id:
  "list_all (\<lambda>c. toLowerChar c = c \<and> c \<noteq> CHR ''-'') t \<Longrightarrow> replaceWith (Lit ''-'') '' '' t = t"
  unfolding replace_hyphen by (rule concat_map_single) (simp add: list_all_iff)

lemma space_not_punctuation: "\<not> isPunctuation CHR '' ''"
  by code_simp

lemma replace_punctuation_clean:
  "list_all (\<lambda>c. \<not> isPunctuation c) (replaceWith (Cls isPunctuation) '' '' t)"
  unfolding replace_punctuation by (induction t) (simp_all add: space_not_punctuation)

lemma toLowerChar_idem: "toLowerChar (toLowerChar c) = toLowerChar c"
proof -
  obtain b0 b1 b2 b3 b4 b5 b6 b7 where c: "c = Char b0 b1 b2 b3 b4 b5 b6 b7" by (cases c)
  show ?thesis
    unfolding c toLowerChar_def isUpperChar_bits setBit5_def
    by (cases b0; cases b1; cases b2; cases b3; cases b4; cases b5; cases b6; cases b7;
        simp add: isUpperChar_bits)
qed

lemma space_plain: "toLowerChar CHR '' '' = CHR '' ''"
  by code_simp

lemma replace_hyphen_plain:
  "list_all (\<lambda>c. toLowerChar c = c \<and> c \<noteq> CHR ''-'')
     (replaceWith (Lit ''-'') '' '' (toLowerCase t))"
  unfolding replace_hyphen toLowerCase_def
  by (induction t) (simp_all add: toLowerChar_idem space_plain)

subsubsection \<open>Collapsing white space\<close>

lemma tryDown_top: "lo \<le> n \<Longrightarrow> k n = Some x \<Longrightarrow> tryDown lo n k = Some x"
  by (cases n) simp_all

lemma execAt_Plus:
  "execAt (Plus P) prev t =
     (if takeWhile P t = [] then None else Some (Map.empty, length (takeWhile P t)))"
proof (cases "takeWhile P t = []")
  case True
  then show ?thesis by (simp add: execAt_def)
next
  case False
  let ?n = "length (takeWhile P t)"
  let ?s = "\<lparr>prevChar = prev, remaining = t, captures = []\<rparr>"
  let ?k = "\<lambda>s'. Some (map_of (captures s'), length t - length (remaining s'))"
  have n: "1 \<le> ?n" using False by (simp add: Suc_le_eq)
  have le: "?n \<le> length t" by (rule length_takeWhile_le)
  have "?k (advance ?n ?s) = Some (Map.empty, ?n)"
    using n le by (simp add: advance_def)
  then have "tryDown 1 ?n (\<lambda>m. ?k (advance m ?s)) = Some (Map.empty, ?n)"
    using n by (intro tryDown_top)
  with False show ?thesis by (simp add: execAt_def)
qed

lemma replaceFrom_Plus_prev:
  "replaceFrom (Plus P) f prev 0 t = replaceFrom (Plus P) f prev' 0 t"
  by (cases t) (simp_all add: execAt_Plus)

lemma replaceFrom_Plus_skip:
  "replaceFrom (Plus P) f prev (length (takeWhile P t)) t
     = replaceFrom (Plus P) f prev' 0 (dropWhile P t)"
proof (induction t arbitrary: prev)
  case Nil
  show ?case by (simp add: execAt_Plus)
next
  case (Cons c cs)
  show ?case
  proof (cases "P c")
    case True
    then show ?thesis using Cons.IH[of "Some c"] by simp
  next
    case False
    then show ?thesis using replaceFrom_Plus_prev[of P f prev "c # cs" prev'] by simp
  qed
qed

lemma collapseSpaces_Nil: "collapseSpaces [] = []"
  by (simp add: collapseSpaces_def replaceWith_def replaceAll_def execAt_Plus)

lemma collapseSpaces_space:
  assumes "isSpace c"
  shows "collapseSpaces (c # cs) = CHR '' '' # collapseSpaces (dropWhile isSpace cs)"
proof -
  let ?f = "\<lambda>(_::string) (_::nat \<Rightarrow> string option). '' ''"
  have "replaceFrom (Plus isSpace) ?f None 0 (c # cs)
          = '' '' @ replaceFrom (Plus isSpace) ?f (Some c) (length (takeWhile isSpace cs)) cs"
    using assms by (simp add: execAt_Plus)
  also have "\<dots> = '' '' @ replaceFrom (Plus isSpace) ?f None 0 (dropWhile isSpace cs)"
    by (rule arg_cong[where f = "(@) '' ''"]) (rule replaceFrom_Plus_skip)
  finally show ?thesis
    by (simp add: collapseSpaces_def replaceWith_def replaceAll_def)
qed

lemma collapseSpaces_other:
  assumes "\<not> isSpace c"
  shows "collapseSpaces (c # cs) = c # collapseSpaces cs"
proof -
  let ?f = "\<lambda>(_::string) (_::nat \<Rightarrow> string option). '' ''"
  have "replaceFrom (Plus isSpace) ?f None 0 (c # cs)
          = c # replaceFrom (Plus isSpace) ?f (Some c) 0 cs"
    using assms by (simp add: execAt_Plus)
  also have "\<dots> = c # replaceFrom (Plus isSpace) ?f None 0 cs"
    by (rule arg_cong[where f = "(#) c"]) (rule replaceFrom_Plus_prev)
  finally show ?thesis
    by (simp add: collapseSpaces_def replaceWith_def replaceAll_def)
qed

lemma collapseSpaces_length: "length (collapseSpaces t) \<le> length t"
proof (induction t rule: length_induct)
  case (1 t)
  show ?case
  proof (cases t)
    case Nil
    then show ?thesis by (simp add: collapseSpaces_Nil)
  next
    case (Cons c cs)
    show ?thesis
    proof (cases "isSpace c")
      case True
      have "length (dropWhile isSpace cs) \<le> length cs" by (rule length_dropWhile_le)
      then have "length (dropWhile isSpace cs) < length t" using Cons by simp
      with 1 have "length (collapseSpaces (dropWhile isSpace cs)) \<le> length (dropWhile isSpace cs)"
        by blast
      with \<open>length (dropWhile isSpace cs) \<le> length cs\<close> show ?thesis
        using Cons True by (simp add: collapseSpaces_space)
    next
      case False
      have "length cs < length t" using Cons by simp
      with 1 have "length (collapseSpaces cs) \<le> length cs" by blast
      then show ?thesis using Cons False by (simp add: collapseSpaces_other)
    qed
  qed
qed

text \<open>A string starts clean when it is empty or starts with no white space.\<close>

lemma dropWhile_shorter: "dropWhile P cs \<noteq> c # cs"
proof
  assume e: "dropWhile P cs = c # cs"
  have "length (dropWhile P cs) \<le> length cs" by (rule length_dropWhile_le)
  with e show False by simp
qed

lemma dropWhile_id_iff: "dropWhile P t = t \<longleftrightarrow> (t = [] \<or> \<not> P (hd t))"
proof (cases t)
  case Nil
  then show ?thesis by simp
next
  case (Cons c cs)
  show ?thesis
  proof (cases "P c")
    case True
    with Cons dropWhile_shorter[of P cs c] show ?thesis by simp
  next
    case False
    with Cons show ?thesis by simp
  qed
qed

lemma dropWhile_same_length:
  assumes "length (dropWhile P t) = length t"
  shows "dropWhile P t = t"
proof (cases t)
  case Nil
  then show ?thesis by simp
next
  case (Cons c cs)
  show ?thesis
  proof (cases "P c")
    case True
    have "length (dropWhile P cs) \<le> length cs" by (rule length_dropWhile_le)
    with assms Cons True show ?thesis by simp
  next
    case False
    with Cons show ?thesis by simp
  qed
qed

lemma collapseSpaces_start:
  assumes "dropWhile isSpace t = t"
  shows "dropWhile isSpace (collapseSpaces t) = collapseSpaces t"
proof (cases t)
  case Nil
  then show ?thesis by (simp add: collapseSpaces_Nil)
next
  case (Cons c cs)
  from assms[unfolded dropWhile_id_iff] Cons have "\<not> isSpace c" by simp
  then show ?thesis using Cons by (simp add: collapseSpaces_other)
qed

lemma dropWhile_dropWhile: "dropWhile P (dropWhile P t) = dropWhile P t"
  by (induction t) simp_all

lemma collapseSpaces_idem: "collapseSpaces (collapseSpaces t) = collapseSpaces t"
proof (induction t rule: length_induct)
  case (1 t)
  show ?case
  proof (cases t)
    case Nil
    then show ?thesis by (simp add: collapseSpaces_Nil)
  next
    case (Cons c cs)
    show ?thesis
    proof (cases "isSpace c")
      case True
      let ?u = "dropWhile isSpace cs"
      have sp: "isSpace CHR '' ''" by code_simp
      have "length ?u \<le> length cs" by (rule length_dropWhile_le)
      then have "length ?u < length t" using Cons by simp
      with 1 have ih: "collapseSpaces (collapseSpaces ?u) = collapseSpaces ?u" by blast
      have st: "dropWhile isSpace (collapseSpaces ?u) = collapseSpaces ?u"
        by (rule collapseSpaces_start) (rule dropWhile_dropWhile)
      have "collapseSpaces (CHR '' '' # collapseSpaces ?u)
              = CHR '' '' # collapseSpaces (dropWhile isSpace (collapseSpaces ?u))"
        by (rule collapseSpaces_space[OF sp])
      then show ?thesis using Cons True by (simp add: collapseSpaces_space st ih)
    next
      case False
      have "length cs < length t" using Cons by simp
      with 1 have "collapseSpaces (collapseSpaces cs) = collapseSpaces cs" by blast
      then show ?thesis using Cons False by (simp add: collapseSpaces_other)
    qed
  qed
qed

text \<open>A collapsed string stays collapsed when white space is taken off its ends.\<close>

lemma collapsed_Cons:
  assumes "collapseSpaces (c # cs) = c # cs"
  shows "collapseSpaces cs = cs" and "isSpace c \<Longrightarrow> dropWhile isSpace cs = cs"
    and "isSpace c \<Longrightarrow> c = CHR '' ''"
proof -
  have a: "collapseSpaces cs = cs \<and> (isSpace c \<longrightarrow> dropWhile isSpace cs = cs \<and> c = CHR '' '')"
  proof (cases "isSpace c")
    case False
    with assms show ?thesis by (simp add: collapseSpaces_other)
  next
    case True
    with assms have e: "collapseSpaces (dropWhile isSpace cs) = cs" and c: "c = CHR '' ''"
      by (simp_all add: collapseSpaces_space)
    have "length cs \<le> length (dropWhile isSpace cs)"
      using collapseSpaces_length[of "dropWhile isSpace cs"] by (simp add: e)
    moreover have "length (dropWhile isSpace cs) \<le> length cs" by (rule length_dropWhile_le)
    ultimately have "dropWhile isSpace cs = cs" by (intro dropWhile_same_length) simp
    with e c show ?thesis by simp
  qed
  from a show "collapseSpaces cs = cs" by simp
  from a show "isSpace c \<Longrightarrow> dropWhile isSpace cs = cs" by simp
  from a show "isSpace c \<Longrightarrow> c = CHR '' ''" by simp
qed

lemma collapsed_dropWhile:
  "collapseSpaces t = t \<Longrightarrow> collapseSpaces (dropWhile isSpace t) = dropWhile isSpace t"
  by (induction t) (auto dest: collapsed_Cons(1))

lemma trimEnd_Cons:
  "trimEnd (c # cs) = (if trimEnd cs = [] \<and> isSpace c then [] else c # trimEnd cs)"
  by (simp add: Let_def)

lemma trimEnd_hd:
  assumes "trimEnd t \<noteq> []"
  shows "hd (trimEnd t) = hd t"
proof (cases t)
  case Nil
  with assms show ?thesis by simp
next
  case (Cons c cs)
  with assms have "trimEnd t = c # trimEnd cs"
    by (cases "trimEnd cs = [] \<and> isSpace c") (simp_all add: Let_def)
  with Cons show ?thesis by simp
qed

lemma trimEnd_start:
  assumes "dropWhile isSpace t = t"
  shows "dropWhile isSpace (trimEnd t) = trimEnd t"
proof (cases "trimEnd t = []")
  case True
  then show ?thesis by simp
next
  case False
  then have t: "t \<noteq> []" by auto
  with assms[unfolded dropWhile_id_iff] have "\<not> isSpace (hd t)" by simp
  then have "\<not> isSpace (hd (trimEnd t))" using trimEnd_hd[OF False] by simp
  then show ?thesis unfolding dropWhile_id_iff by simp
qed

lemma collapsed_trimEnd:
  "collapseSpaces t = t \<Longrightarrow> collapseSpaces (trimEnd t) = trimEnd t"
proof (induction t)
  case Nil
  then show ?case by simp
next
  case (Cons c cs)
  have cs: "collapseSpaces cs = cs" by (rule collapsed_Cons(1)[OF Cons.prems])
  have ih: "collapseSpaces (trimEnd cs) = trimEnd cs" by (rule Cons.IH[OF cs])
  show ?case
  proof (cases "trimEnd cs = [] \<and> isSpace c")
    case True
    then have "trimEnd (c # cs) = []" by (simp add: Let_def)
    then show ?thesis by (simp only: collapseSpaces_Nil)
  next
    case False
    then have te: "trimEnd (c # cs) = c # trimEnd cs" by (simp add: Let_def)
    show ?thesis
    proof (cases "isSpace c")
      case sp: True
      have c: "c = CHR '' ''" by (rule collapsed_Cons(3)[OF Cons.prems sp])
      have "dropWhile isSpace cs = cs" by (rule collapsed_Cons(2)[OF Cons.prems sp])
      then have "dropWhile isSpace (trimEnd cs) = trimEnd cs" by (rule trimEnd_start)
      then show ?thesis
        unfolding te using sp c ih by (simp add: collapseSpaces_space)
    next
      case nsp: False
      then show ?thesis unfolding te using ih by (simp add: collapseSpaces_other)
    qed
  qed
qed

lemma collapsed_trim: "collapseSpaces t = t \<Longrightarrow> collapseSpaces (trim t) = trim t"
  unfolding trim_def by (intro collapsed_trimEnd collapsed_dropWhile)

subsubsection \<open>Trimming\<close>

lemma trimEnd_idem: "trimEnd (trimEnd t) = trimEnd t"
proof (induction t)
  case Nil
  show ?case by simp
next
  case (Cons c cs)
  show ?case
  proof (cases "trimEnd cs = [] \<and> isSpace c")
    case True
    then have "trimEnd (c # cs) = []" by (simp add: Let_def)
    then show ?thesis by simp
  next
    case False
    then have te: "trimEnd (c # cs) = c # trimEnd cs" by (simp add: Let_def)
    have "trimEnd (c # trimEnd cs) = c # trimEnd cs"
      using False by (simp add: Let_def Cons.IH)
    with te show ?thesis by simp
  qed
qed

lemma trim_idem: "trim (trim t) = trim t"
proof -
  have "dropWhile isSpace (trimEnd (dropWhile isSpace t)) = trimEnd (dropWhile isSpace t)"
    by (rule trimEnd_start) (rule dropWhile_dropWhile)
  then show ?thesis by (simp add: trim_def trimEnd_idem)
qed

lemma set_trimEnd: "set (trimEnd t) \<subseteq> set t"
proof (induction t)
  case Nil
  show ?case by simp
next
  case (Cons c cs)
  then show ?case by (cases "trimEnd cs = [] \<and> isSpace c") (auto simp: Let_def)
qed

lemma set_trim: "set (trim t) \<subseteq> set t"
  unfolding trim_def using set_trimEnd[of "dropWhile isSpace t"] set_dropWhileD[of _ isSpace t]
  by blast

lemma trim_all: "list_all Q t \<Longrightarrow> list_all Q (trim t)"
  by (rule list_all_subset[OF set_trim])

lemma collapseSpaces_all: "Q CHR '' '' \<Longrightarrow> list_all Q t \<Longrightarrow> list_all Q (collapseSpaces t)"
  unfolding collapseSpaces_def by (rule replaceWith_all) simp_all

subsubsection \<open>Normal forms\<close>

lemma collapseSpaces_plain:
  assumes "list_all (\<lambda>c. toLowerChar c = c \<and> c \<noteq> CHR ''-'') t"
  shows "list_all (\<lambda>c. toLowerChar c = c \<and> c \<noteq> CHR ''-'') (collapseSpaces t)"
  unfolding collapseSpaces_def by (rule replaceWith_all[OF phrases_plain(9) assms])

lemma collapseSpaces_no_punctuation:
  assumes "list_all (\<lambda>c. \<not> isPunctuation c) t"
  shows "list_all (\<lambda>c. \<not> isPunctuation c) (collapseSpaces t)"
  unfolding collapseSpaces_def
  by (rule replaceWith_all[OF _ assms]) (simp add: space_not_punctuation)

lemma removePunctuation_facts:
  assumes "list_all (\<lambda>c. toLowerChar c = c \<and> c \<noteq> CHR ''-'') t"
  shows "list_all (\<lambda>c. toLowerChar c = c \<and> c \<noteq> CHR ''-'') (removePunctuation t)"
    and "list_all (\<lambda>c. \<not> isPunctuation c) (removePunctuation t)"
    and "collapseSpaces (removePunctuation t) = removePunctuation t"
    and "trim (removePunctuation t) = removePunctuation t"
proof -
  let ?Q = "\<lambda>c. toLowerChar c = c \<and> c \<noteq> CHR ''-''"
  let ?u = "replaceWith (Cls isPunctuation) '' '' t"
  have "list_all ?Q ?u" by (rule replaceWith_all[OF phrases_plain(9) assms])
  then have "list_all ?Q (collapseSpaces ?u)" by (rule collapseSpaces_plain)
  then show "list_all ?Q (removePunctuation t)"
    unfolding removePunctuation_def by (rule trim_all)
  have "list_all (\<lambda>c. \<not> isPunctuation c) (collapseSpaces ?u)"
    by (rule collapseSpaces_no_punctuation[OF replace_punctuation_clean])
  then show "list_all (\<lambda>c. \<not> isPunctuation c) (removePunctuation t)"
    unfolding removePunctuation_def by (rule trim_all)
  show "collapseSpaces (removePunctuation t) = removePunctuation t"
    unfolding removePunctuation_def by (rule collapsed_trim) (rule collapseSpaces_idem)
  show "trim (removePunctuation t) = removePunctuation t"
    unfolding removePunctuation_def by (rule trim_idem)
qed

lemma normalizeHyphens_plain:
  "list_all (\<lambda>c. toLowerChar c = c \<and> c \<noteq> CHR ''-'') (normalizeHyphens (toLowerCase t))"
  unfolding normalizeHyphens_def
  by (intro trim_all collapseSpaces_plain replace_hyphen_plain)

lemma stages_Nil:
  "toLowerCase [] = []" "normalizeHyphens [] = []" "removePunctuation [] = []"
  "trim (collapseSpaces []) = []" "normalizeRadioTranscript [] = []"
  "removePunctuation (normalizeRadioPhrases (normalizeRadioNumbers [])) = []"
  by code_simp+

lemma normalizeRadioTranscript_Cons:
  "x \<noteq> [] \<Longrightarrow> normalizeRadioTranscript x =
     trim (collapseSpaces (removePunctuation (normalizeRadioPhrases (normalizeRadioNumbers
       (normalizeHyphens (toLowerCase x))))))"
  by (simp add: normalizeRadioTranscript_def Let_def)

lemma clean_fixed:
  assumes "list_all (\<lambda>c. toLowerChar c = c \<and> c \<noteq> CHR ''-'') y"
    and "list_all (\<lambda>c. \<not> isPunctuation c) y"
    and "collapseSpaces y = y" and "trim y = y"
  shows "toLowerCase y = y" and "normalizeHyphens y = y" and "removePunctuation y = y"
    and "trim (collapseSpaces y) = y"
proof -
  show "toLowerCase y = y" by (rule toLowerCase_plain[OF assms(1)])
  show "normalizeHyphens y = y"
    by (simp only: normalizeHyphens_def replace_hyphen_id[OF assms(1)] assms(3) assms(4))
  show "removePunctuation y = y"
    by (simp only: removePunctuation_def replace_punctuation_id[OF assms(2)] assms(3) assms(4))
  show "trim (collapseSpaces y) = y" by (simp only: assms(3) assms(4))
qed

lemma normal_form:
  "list_all (\<lambda>c. toLowerChar c = c \<and> c \<noteq> CHR ''-'') (normalizeRadioTranscript x)"
  "list_all (\<lambda>c. \<not> isPunctuation c) (normalizeRadioTranscript x)"
  "collapseSpaces (normalizeRadioTranscript x) = normalizeRadioTranscript x"
  "trim (normalizeRadioTranscript x) = normalizeRadioTranscript x"
proof -
  let ?Q = "\<lambda>c. toLowerChar c = c \<and> c \<noteq> CHR ''-''"
  let ?z = "normalizeRadioPhrases (normalizeRadioNumbers (normalizeHyphens (toLowerCase x)))"
  have z: "list_all ?Q ?z"
    by (intro normalizeRadioPhrases_all normalizeRadioNumbers_all normalizeHyphens_plain)
  note rp = removePunctuation_facts[OF z]
  have n: "normalizeRadioTranscript x = removePunctuation ?z" if "x \<noteq> []"
    by (simp only: normalizeRadioTranscript_Cons[OF that] rp(3) rp(4))
  have all: "list_all ?Q (normalizeRadioTranscript x)
      \<and> list_all (\<lambda>c. \<not> isPunctuation c) (normalizeRadioTranscript x)
      \<and> collapseSpaces (normalizeRadioTranscript x) = normalizeRadioTranscript x
      \<and> trim (normalizeRadioTranscript x) = normalizeRadioTranscript x"
  proof (cases "x = []")
    case True
    then show ?thesis by (simp add: stages_Nil(5) collapseSpaces_Nil trim_def)
  next
    case False
    show ?thesis unfolding n[OF False] using rp by blast
  qed
  from all show "list_all ?Q (normalizeRadioTranscript x)" by blast
  from all show "list_all (\<lambda>c. \<not> isPunctuation c) (normalizeRadioTranscript x)" by blast
  from all show "collapseSpaces (normalizeRadioTranscript x) = normalizeRadioTranscript x" by blast
  from all show "trim (normalizeRadioTranscript x) = normalizeRadioTranscript x" by blast
qed

lemma renormalize:
  "normalizeRadioTranscript (normalizeRadioTranscript x) =
     removePunctuation (normalizeRadioPhrases (normalizeRadioNumbers (normalizeRadioTranscript x)))"
proof (cases "normalizeRadioTranscript x = []")
  case True
  then show ?thesis by (simp only: stages_Nil)
next
  case False
  let ?y = "normalizeRadioTranscript x"
  let ?z = "normalizeRadioPhrases (normalizeRadioNumbers ?y)"
  note cf = clean_fixed[OF normal_form, of x]
  have z: "list_all (\<lambda>c. toLowerChar c = c \<and> c \<noteq> CHR ''-'') ?z"
    by (intro normalizeRadioPhrases_all normalizeRadioNumbers_all normal_form)
  note rp = removePunctuation_facts[OF z]
  show ?thesis
    by (simp only: normalizeRadioTranscript_Cons[OF False] cf(1) cf(2) rp(3) rp(4))
qed

lemma stages_bowser_one:
  "normalizeRadioPhrases (normalizeRadioNumbers ''bowser one'') = ''bowser one''"
  by code_simp

text \<open>
  Claim C3, as the code has it. The normal form of every input is a fixed point of the
  lower-casing, of the hyphen stage, of the punctuation stage and of the white-space
  clean-up, so that normalizing it again runs the number and phrase stages on it and
  removes the punctuation of their result. Normalization is therefore idempotent on
  every input whose normal form the number and phrase stages leave as it is.
\<close>

theorem C3_idempotent_unless_numbers_or_phrases_rewrite:
  "toLowerCase (normalizeRadioTranscript x) = normalizeRadioTranscript x
   \<and> normalizeHyphens (normalizeRadioTranscript x) = normalizeRadioTranscript x
   \<and> removePunctuation (normalizeRadioTranscript x) = normalizeRadioTranscript x
   \<and> trim (collapseSpaces (normalizeRadioTranscript x)) = normalizeRadioTranscript x
   \<and> normalizeRadioTranscript (normalizeRadioTranscript x) =
       removePunctuation (normalizeRadioPhrases (normalizeRadioNumbers
         (normalizeRadioTranscript x)))
   \<and> (normalizeRadioPhrases (normalizeRadioNumbers (normalizeRadioTranscript x))
         = normalizeRadioTranscript x
       \<longrightarrow> normalizeRadioTranscript (normalizeRadioTranscript x) = normalizeRadioTranscript x)"
proof -
  note cf = clean_fixed[OF normal_form, of x]
  have "normalizeRadioTranscript (normalizeRadioTranscript x) = normalizeRadioTranscript x"
    if "normalizeRadioPhrases (normalizeRadioNumbers (normalizeRadioTranscript x))
          = normalizeRadioTranscript x"
    by (simp only: renormalize that cf(3))
  with cf renormalize[of x] show ?thesis by blast
qed

theorem C3_witness:
  "normalizeRadioPhrases (normalizeRadioNumbers (normalizeRadioTranscript ''Bowser 1''))
     = normalizeRadioTranscript ''Bowser 1''
   \<and> normalizeRadioTranscript (normalizeRadioTranscript ''Bowser 1'') = ''bowser one''"
  using C3_idempotent_unless_numbers_or_phrases_rewrite[of "''Bowser 1''"]
  by (simp add: nf_bowser_1 stages_bowser_one)

subsection \<open>Open-ended scoring service\<close>

lemma trimEnd_all_space: "\<forall>c\<in>set s. isSpace c \<Longrightarrow> trimEnd s = []"
  by (induction s) auto

lemma trim_all_space: "\<forall>c\<in>set s. isSpace c \<Longrightarrow> trim s = []"
proof -
  assume a: "\<forall>c\<in>set s. isSpace c"
  then have "dropWhile isSpace s = []" by simp
  then show ?thesis unfolding trim_def by (simp only: trimEnd.simps)
qed

lemma calculateOverall_0_100_0: "calculateOverall 0 100 0 = 30"
  by code_simp

text \<open>
  Claim C10. For every request whose transcript is empty or consists only of whitespace,
  \<^verbatim>\<open>scoreWithOpenAI\<close> returns exactly accuracy 0, fluency 100, structure 0, overall 15,
  an empty filler list and the two fixed strings, and makes no network request. The
  overall of 15 is not the weighted combination of these components, which is 30.
\<close>

theorem C10_empty_transcript_fixed_result:
  assumes "\<forall>c\<in>set (reqTranscript request). isSpace c"
  shows "scoreWithOpenAI systemPrompt callChatAPI request =
           (Inr \<lparr>aiAccuracy = 0, aiFluency = 100, aiStructure = 0, aiOverall = 15,
                 feedback = ''No response was detected. Please speak your answer clearly.'',
                 fillerWords = [], fillerCount = 0,
                 radioProtocolNotes = Some ''No response provided.''\<rparr>, [])
         \<and> calculateOverall 0 100 0 = 30"
  using trim_all_space[OF assms]
  by (simp add: scoreWithOpenAI_def emptyResponseResult_def calculateOverall_0_100_0)

theorem C10_witness:
  "list_all isSpace [CHR 0x20, CHR 0x09]
   \<and> snd (scoreWithOpenAI ''prompt'' (\<lambda>_. Inl ''unreachable'')
        \<lparr>reqTranscript = [CHR 0x20, CHR 0x09], expectedAnswer = ''ATC, Bowser One, over'',
         scenarioPrompt = ''Check in'', reqStructureMode = Full\<rparr>) = []
   \<and> map_sum id aiOverall (fst (scoreWithOpenAI ''prompt'' (\<lambda>_. Inl ''unreachable'')
        \<lparr>reqTranscript = [CHR 0x20, CHR 0x09], expectedAnswer = ''ATC, Bowser One, over'',
         scenarioPrompt = ''Check in'', reqStructureMode = Full\<rparr>)) = Inr 15"
proof -
  have h: "\<forall>c\<in>set (reqTranscript \<lparr>reqTranscript = [CHR 0x20, CHR 0x09],
        expectedAnswer = ''ATC, Bowser One, over'',
        scenarioPrompt = ''Check in'', reqStructureMode = Full\<rparr>). isSpace c"
    by (simp add: isSpace_def)
  have l: "list_all isSpace [CHR 0x20, CHR 0x09]"
    by (simp add: isSpace_def)
  show ?thesis
    using l C10_empty_transcript_fixed_result[OF h, of "''prompt''" "\<lambda>_. Inl ''unreachable''"]
    by simp
qed

subsection \<open>Connection pool\<close>

text \<open>
  Claim C6. After an initialization that is not skipped by one of the two guards, the pool
  is ready if and only if at least one provider's adapter connected (its token was
  fetched and its connection opened); so a failing fetch or connection of one provider
  does not prevent readiness when the other succeeds. The error field is set exactly
  when no provider connected, and the pool is no longer initializing.
\<close>

theorem C6_ready_iff_some_adapter_connected:
  assumes "initializeBegin now state \<noteq> None"
  shows "(isReady (fst (initialize env now state))
            \<longleftrightarrow> openaiConnects env \<or> elevenlabsConnects env)
       \<and> (isReady (fst (initialize env now state))
            \<longleftrightarrow> openaiAdapter (fst (initialize env now state)) \<noteq> None
               \<or> elevenlabsAdapter (fst (initialize env now state)) \<noteq> None)
       \<and> (error (fst (initialize env now state)) = None
            \<longleftrightarrow> openaiConnects env \<or> elevenlabsConnects env)
       \<and> \<not> isInitializing (fst (initialize env now state))"
  using assms
  by (auto simp: initialize_def initializeBody_def Let_def settledValue_def openaiConnects_def
        elevenlabsConnects_def split: option.splits Settled.splits)

theorem C6_witness:
  "initializeBegin 0 (initialPoolState :: nat ConnectionPoolState) \<noteq> None
   \<and> \<not> openaiConnects demoEnv \<and> elevenlabsConnects demoEnv
   \<and> isReady (fst (initialize demoEnv 0 initialPoolState))
   \<and> error (fst (initialize demoEnv 0 initialPoolState)) = None
   \<and> openaiAdapter (fst (initialize demoEnv 0 initialPoolState)) = None
   \<and> elevenlabsAdapter (fst (initialize demoEnv 0 initialPoolState)) = Some 7"
proof -
  have h: "initializeBegin 0 (initialPoolState :: nat ConnectionPoolState) \<noteq> None"
    by (simp add: initializeBegin_def initialPoolState_def)
  have c: "\<not> openaiConnects demoEnv \<and> elevenlabsConnects demoEnv"
    by (simp add: openaiConnects_def elevenlabsConnects_def demoEnv_def)
  have a: "openaiAdapter (fst (initialize demoEnv 0 initialPoolState)) = None
   \<and> elevenlabsAdapter (fst (initialize demoEnv 0 initialPoolState)) = Some 7"
    by (simp add: initialize_def initializeBegin_def initializeBody_def initialPoolState_def
          demoEnv_def settledValue_def Let_def)
  show ?thesis
    using h c a C6_ready_iff_some_adapter_connected[OF h, of demoEnv] by simp
qed

text \<open>
  Claim C7. \<^verbatim>\<open>initialize\<close> is idempotent and safe to re-enter: a call made while
  \<open>isInitializing\<close> holds, and a call made while the pool is ready and both stored
  tokens are outside the refresh buffer of their expiry, return with the state unchanged
  and without any effect (no token fetch). In particular a second call that arrives
  while a first one is in flight does nothing, whatever its environment and time.
\<close>

theorem C7_initialize_idempotent_reentrant:
  "(isInitializing state \<longrightarrow> initialize env now state = (state, []))
   \<and> (isReady state \<and> openaiToken state = Some tokA \<and> elevenlabsToken state = Some tokB
        \<and> now < expiresAt tokA - TOKEN_REFRESH_BUFFER_MS
        \<and> now < expiresAt tokB - TOKEN_REFRESH_BUFFER_MS
      \<longrightarrow> initialize env now state = (state, []))
   \<and> (initializeBegin now state = Some started
      \<longrightarrow> initialize env' now' started = (started, []))"
  by (auto simp: initialize_def initializeBegin_def isTokenExpired_def split: if_splits)

theorem C7_witness:
  "isInitializing (initialPoolState\<lparr>isInitializing := True\<rparr> :: nat ConnectionPoolState)
   \<and> initialize demoEnv 0 (initialPoolState\<lparr>isInitializing := True\<rparr>)
       = (initialPoolState\<lparr>isInitializing := True\<rparr>, [])
   \<and> isReady demoReadyPool \<and> openaiToken demoReadyPool = Some demoToken
   \<and> elevenlabsToken demoReadyPool = Some demoToken
   \<and> 1000 < expiresAt demoToken - TOKEN_REFRESH_BUFFER_MS
   \<and> initialize demoEnv 1000 demoReadyPool = (demoReadyPool, [])
   \<and> initializeBegin 0 (initialPoolState :: nat ConnectionPoolState)
       = Some (initialPoolState\<lparr>isInitializing := True\<rparr>)
   \<and> initialize demoEnv 5 (initialPoolState\<lparr>isInitializing := True\<rparr>)
       = (initialPoolState\<lparr>isInitializing := True\<rparr>, [])"
proof -
  have h1: "isInitializing (initialPoolState\<lparr>isInitializing := True\<rparr> :: nat ConnectionPoolState)"
    by simp
  have h2: "isReady demoReadyPool \<and> openaiToken demoReadyPool = Some demoToken
   \<and> elevenlabsToken demoReadyPool = Some demoToken
   \<and> 1000 < expiresAt demoToken - TOKEN_REFRESH_BUFFER_MS"
    by (simp add: demoReadyPool_def demoToken_def TOKEN_REFRESH_BUFFER_MS_def)
  have h3: "initializeBegin 0 (initialPoolState :: nat ConnectionPoolState)
       = Some (initialPoolState\<lparr>isInitializing := True\<rparr>)"
    by (simp add: initializeBegin_def initialPoolState_def)
  show ?thesis
    using h1 h2 h3
      C7_initialize_idempotent_reentrant
        [where state = "initialPoolState\<lparr>isInitializing := True\<rparr>" and env = demoEnv and now = 0]
      C7_initialize_idempotent_reentrant
        [where state = demoReadyPool and env = demoEnv and now = 1000
           and tokA = demoToken and tokB = demoToken]
      C7_initialize_idempotent_reentrant
        [where state = initialPoolState and now = 0
           and started = "initialPoolState\<lparr>isInitializing := True\<rparr>"
           and env' = demoEnv and now' = 5]
    by simp
qed

subsection \<open>Stale timeouts\<close>

lemma stale_timeout_ignored:
  "c \<noteq> recordingCycleRef w \<Longrightarrow> fireTimeout deps now (FinalizationTimeout c) w = w"
  "c \<noteq> recordingCycleRef w \<Longrightarrow> fireTimeout deps now (MaxRecordingTimeout c) w = w"
  by (auto simp: fireTimeout_def finalizationTimeoutCallback_def maxRecordingTimeoutCallback_def)

text \<open>
  Claim C5. A timeout callback stamped with a recording cycle older than the current one
  leaves the whole state (the session store and the refs of the hook) unchanged: both the
  finalization timeout scheduled by \<^verbatim>\<open>stopRecording\<close> and the maximum-duration timeout
  scheduled by \<^verbatim>\<open>startRecording\<close>.
\<close>

theorem C5_stale_timeouts_leave_state_unchanged:
  assumes "c < recordingCycleRef w"
  shows "fireTimeout deps now (FinalizationTimeout c) w = w
       \<and> fireTimeout deps now (MaxRecordingTimeout c) w = w"
  using assms by (simp add: stale_timeout_ignored)

theorem C5_witness:
  "1 < recordingCycleRef (demoWorld\<lparr>recordingCycleRef := 2\<rparr>)
   \<and> fireTimeout demoDeps 99 (FinalizationTimeout 1) (demoWorld\<lparr>recordingCycleRef := 2\<rparr>)
       = demoWorld\<lparr>recordingCycleRef := 2\<rparr>
   \<and> fireTimeout demoDeps 99 (MaxRecordingTimeout 1) (demoWorld\<lparr>recordingCycleRef := 2\<rparr>)
       = demoWorld\<lparr>recordingCycleRef := 2\<rparr>
   \<and> FinalizationTimeout 1 \<in> set (scheduledTimeouts (demoWorld\<lparr>recordingCycleRef := 2\<rparr>))"
proof -
  have h: "1 < recordingCycleRef (demoWorld\<lparr>recordingCycleRef := 2\<rparr>)" by simp
  show ?thesis
    using h C5_stale_timeouts_leave_state_unchanged[OF h, of demoDeps 99]
    by (simp add: demoWorld_def)
qed

subsection \<open>Finalization timeout\<close>

lemma getResult_setResult:
  "getResult p (setResult p' r s) = (if p = p' then r else getResult p s)"
  by (cases p; cases p') (simp_all add: getResult_def setResult_def)

lemma setResult_fields:
  "questionBank (setResult p r s) = questionBank s"
  "currentQuestionIndex (setResult p r s) = currentQuestionIndex s"
  "selectedChoiceIndex (setResult p r s) = selectedChoiceIndex s"
  "recordingState (setResult p r s) = recordingState s"
  by (cases p; simp add: setResult_def)+

lemma getCurrentQuestion_cong:
  "questionBank s' = questionBank s \<Longrightarrow> currentQuestionIndex s' = currentQuestionIndex s
     \<Longrightarrow> getCurrentQuestion s' = getCurrentQuestion s"
  by (simp add: getCurrentQuestion_def split: option.splits)

lemma expectedAnswerFor_cong:
  "selectedChoiceIndex s' = selectedChoiceIndex s \<Longrightarrow> expectedAnswerFor s' q = expectedAnswerFor s q"
  by (simp add: expectedAnswerFor_def)

lemma updateProviderTranscript_result:
  "getResult p (updateProviderTranscript p' patch s) =
     (if p = p' then (getResult p s)\<lparr>transcript := applyPatch patch (transcript (getResult p s))\<rparr>
      else getResult p s)"
  by (simp add: updateProviderTranscript_def Let_def getResult_setResult)

lemma updateProviderTranscript_fields:
  "questionBank (updateProviderTranscript p patch s) = questionBank s"
  "currentQuestionIndex (updateProviderTranscript p patch s) = currentQuestionIndex s"
  "selectedChoiceIndex (updateProviderTranscript p patch s) = selectedChoiceIndex s"
  by (simp_all add: updateProviderTranscript_def Let_def setResult_fields)

lemma computeScores_fields:
  "questionBank (computeScores deps p s) = questionBank s"
  "currentQuestionIndex (computeScores deps p s) = currentQuestionIndex s"
  "selectedChoiceIndex (computeScores deps p s) = selectedChoiceIndex s"
  by (simp_all add: computeScores_def Let_def setResult_fields split: option.splits)

lemma computeScores_other:
  "p \<noteq> p' \<Longrightarrow> getResult p (computeScores deps p' s) = getResult p s"
  by (cases p; cases p')
     (simp_all add: computeScores_def Let_def getResult_def setResult_def split: option.splits)

lemma computeScores_scored:
  assumes q: "getCurrentQuestion s = Some q"
    and sp: "spoken = jsOr (jsOr (finalText (transcript (getResult p s)))
                               (committedText (transcript (getResult p s))))
                         (interimText (transcript (getResult p s)))"
    and ne: "spoken \<noteq> []"
  shows "status (getResult p (computeScores deps p s)) = StCompleted"
    and "transcript (getResult p (computeScores deps p s)) = transcript (getResult p s)"
    and "metrics (getResult p (computeScores deps p s)) =
           Some \<lparr>accuracy = fst (calculateAccuracy (calculateSimilarity deps) spoken
                                   (expectedAnswerFor s q)),
                 fluency = fst (calculateFluency (detectFillers deps) (countTotalFillers deps) spoken),
                 structureScore = fst (calculateStructure deps spoken (structureMode q)
                                         (expectedKeywords q)),
                 overall = calculateOverall
                   (of_int (fst (calculateAccuracy (calculateSimilarity deps) spoken
                                   (expectedAnswerFor s q))))
                   (of_int (fst (calculateFluency (detectFillers deps) (countTotalFillers deps)
                                   spoken)))
                   (fst (calculateStructure deps spoken (structureMode q)
                           (expectedKeywords q)))\<rparr>"
  using q ne unfolding sp
  by (cases p; simp add: computeScores_def Let_def getResult_def setResult_def)+

lemma forceCompletion_fields:
  "questionBank (forceCompletion deps p snap cur) = questionBank cur"
  "currentQuestionIndex (forceCompletion deps p snap cur) = currentQuestionIndex cur"
  "selectedChoiceIndex (forceCompletion deps p snap cur) = selectedChoiceIndex cur"
  by (simp_all add: forceCompletion_def Let_def computeScores_fields updateProviderTranscript_fields)

lemma forceCompletion_other:
  "p \<noteq> p' \<Longrightarrow> getResult p (forceCompletion deps p' snap cur) = getResult p cur"
  by (simp add: forceCompletion_def Let_def computeScores_other updateProviderTranscript_result)

lemma jsOr_fragment: "fragment \<noteq> [] \<Longrightarrow> jsOr (jsOr fragment a) b = fragment"
  by (simp add: jsOr_def)

lemma getResult_setRecordingCompleted:
  "getResult p (setRecordingCompleted s) = getResult p s"
  by (cases p) (simp_all add: getResult_def setRecordingCompleted_def)

lemma computeScores_transcript:
  "transcript (getResult p (computeScores deps p' s)) = transcript (getResult p s)"
  by (cases p; cases p')
     (simp_all add: computeScores_def Let_def getResult_def setResult_def split: option.splits)

lemma computeScores_no_question:
  "getCurrentQuestion s = None \<Longrightarrow> computeScores deps p s = s"
  by (simp add: computeScores_def Let_def)

lemma forceCompletion_skip:
  assumes "status (getResult p snap) = StCompleted
           \<or> jsOr (committedText (transcript (getResult p snap)))
                   (interimText (transcript (getResult p snap))) = []"
  shows "forceCompletion deps p snap cur = cur"
  using assms by (auto simp: forceCompletion_def Let_def jsOr_def split: if_splits)

lemma forceCompletion_unfold:
  assumes st: "status (getResult p snap) \<noteq> StCompleted"
    and fr: "fragment = jsOr (committedText (transcript (getResult p snap)))
                             (interimText (transcript (getResult p snap)))"
    and ne: "fragment \<noteq> []"
  shows "forceCompletion deps p snap cur =
           computeScores deps p
             (updateProviderTranscript p
                \<lparr>setInterimText = None, setCommittedText = None, setFinalText = Some fragment\<rparr>
                cur)"
proof -
  have "committedText (transcript (getResult p snap)) \<noteq> []
        \<or> interimText (transcript (getResult p snap)) \<noteq> []"
    using fr ne by (auto simp: jsOr_def)
  with st show ?thesis by (simp add: forceCompletion_def Let_def fr)
qed

lemma forceCompletion_stored:
  assumes st: "status (getResult p snap) \<noteq> StCompleted"
    and fr: "fragment = jsOr (committedText (transcript (getResult p snap)))
                             (interimText (transcript (getResult p snap)))"
    and ne: "fragment \<noteq> []"
  shows "finalText (transcript (getResult p (forceCompletion deps p snap cur))) = fragment"
  unfolding forceCompletion_unfold[OF st fr ne]
  by (simp add: computeScores_transcript updateProviderTranscript_result applyPatch_def)

lemma forceCompletion_no_question:
  assumes st: "status (getResult p snap) \<noteq> StCompleted"
    and fr: "fragment = jsOr (committedText (transcript (getResult p snap)))
                             (interimText (transcript (getResult p snap)))"
    and ne: "fragment \<noteq> []"
    and q: "getCurrentQuestion cur = None"
  shows "getResult p (forceCompletion deps p snap cur) =
           (getResult p cur)\<lparr>transcript := (transcript (getResult p cur))\<lparr>finalText := fragment\<rparr>\<rparr>"
proof -
  let ?patch = "\<lparr>setInterimText = None, setCommittedText = None, setFinalText = Some fragment\<rparr>"
  let ?u = "updateProviderTranscript p ?patch cur"
  have "getCurrentQuestion ?u = None"
    using q getCurrentQuestion_cong[of ?u cur] by (simp add: updateProviderTranscript_fields)
  then have "forceCompletion deps p snap cur = ?u"
    unfolding forceCompletion_unfold[OF st fr ne] by (rule computeScores_no_question)
  then show ?thesis
    by (simp add: updateProviderTranscript_result applyPatch_def)
qed

lemma forceCompletion_scored:
  assumes st: "status (getResult p snap) \<noteq> StCompleted"
    and fr: "fragment = jsOr (committedText (transcript (getResult p snap)))
                             (interimText (transcript (getResult p snap)))"
    and ne: "fragment \<noteq> []"
    and q: "getCurrentQuestion cur = Some q"
  shows "status (getResult p (forceCompletion deps p snap cur)) = StCompleted
       \<and> metrics (getResult p (forceCompletion deps p snap cur)) =
           Some \<lparr>accuracy = fst (calculateAccuracy (calculateSimilarity deps) fragment
                                   (expectedAnswerFor cur q)),
                 fluency = fst (calculateFluency (detectFillers deps) (countTotalFillers deps) fragment),
                 structureScore = fst (calculateStructure deps fragment (structureMode q)
                                         (expectedKeywords q)),
                 overall = calculateOverall
                   (of_int (fst (calculateAccuracy (calculateSimilarity deps) fragment
                                   (expectedAnswerFor cur q))))
                   (of_int (fst (calculateFluency (detectFillers deps) (countTotalFillers deps)
                                   fragment)))
                   (fst (calculateStructure deps fragment (structureMode q)
                           (expectedKeywords q)))\<rparr>"
proof -
  let ?patch = "\<lparr>setInterimText = None, setCommittedText = None, setFinalText = Some fragment\<rparr>"
  let ?u = "updateProviderTranscript p ?patch cur"
  have qu: "getCurrentQuestion ?u = Some q"
    using q getCurrentQuestion_cong[of ?u cur] by (simp add: updateProviderTranscript_fields)
  have ex: "expectedAnswerFor ?u q = expectedAnswerFor cur q"
    by (rule expectedAnswerFor_cong) (simp add: updateProviderTranscript_fields)
  have fin: "finalText (transcript (getResult p ?u)) = fragment"
    by (simp add: updateProviderTranscript_result applyPatch_def)
  have sp: "fragment = jsOr (jsOr (finalText (transcript (getResult p ?u)))
                               (committedText (transcript (getResult p ?u))))
                         (interimText (transcript (getResult p ?u)))"
    using ne by (simp add: fin jsOr_fragment)
  show ?thesis
    unfolding forceCompletion_unfold[OF st fr ne]
    using computeScores_scored[OF qu sp ne, of deps]
    by (simp add: ex)
qed

text \<open>
  Claim C8, as the code has it. When the finalization timeout of the current cycle
  fires, the recording is completed in every case. A provider that has not reached the
  completed status and holds a committed or an interim text falls back to that fragment
  (the committed text if it is not empty, else the interim text): the fragment is stored
  as its final transcript; with a current question the provider is scored from the
  fragment and completed, and without one its result is changed in the final transcript
  only. A provider that is already completed, or that holds neither text, is left as it
  was: no final transcript is stored and no score is computed.
\<close>

theorem C8_finalization_timeout_fallback:
  assumes cyc: "recordingCycleRef w = c"
    and r: "r = getResult p (store w)"
    and r': "r' = getResult p (store (finalizationTimeoutCallback deps c w))"
    and fr: "fragment = jsOr (committedText (transcript r)) (interimText (transcript r))"
  shows "recordingState (store (finalizationTimeoutCallback deps c w)) = RecCompleted
       \<and> (status r \<noteq> StCompleted \<and> fragment \<noteq> [] \<longrightarrow>
            finalText (transcript r') = fragment
            \<and> (\<forall>q. getCurrentQuestion (store w) = Some q \<longrightarrow>
                  status r' = StCompleted
                  \<and> metrics r' =
           Some \<lparr>accuracy = fst (calculateAccuracy (calculateSimilarity deps) fragment
                                   (expectedAnswerFor (store w) q)),
                 fluency = fst (calculateFluency (detectFillers deps) (countTotalFillers deps) fragment),
                 structureScore = fst (calculateStructure deps fragment (structureMode q)
                                         (expectedKeywords q)),
                 overall = calculateOverall
                   (of_int (fst (calculateAccuracy (calculateSimilarity deps) fragment
                                   (expectedAnswerFor (store w) q))))
                   (of_int (fst (calculateFluency (detectFillers deps) (countTotalFillers deps)
                                   fragment)))
                   (fst (calculateStructure deps fragment (structureMode q)
                           (expectedKeywords q)))\<rparr>)
            \<and> (getCurrentQuestion (store w) = None \<longrightarrow>
                  r' = r\<lparr>transcript := (transcript r)\<lparr>finalText := fragment\<rparr>\<rparr>))
       \<and> (status r = StCompleted \<or> fragment = [] \<longrightarrow> r' = r)"
proof -
  define s1 where "s1 = forceCompletion deps OpenAI (store w) (store w)"
  define s2 where "s2 = forceCompletion deps ElevenLabs (store w) s1"
  have fin: "store (finalizationTimeoutCallback deps c w) = setRecordingCompleted s2"
    using cyc by (simp add: finalizationTimeoutCallback_def Let_def s1_def s2_def)
  have rs: "recordingState (setRecordingCompleted s2) = RecCompleted"
    by (simp add: setRecordingCompleted_def)
  have q1: "getCurrentQuestion s1 = getCurrentQuestion (store w)"
    by (rule getCurrentQuestion_cong) (simp_all add: s1_def forceCompletion_fields)
  have e1: "expectedAnswerFor s1 q = expectedAnswerFor (store w) q" for q
    by (rule expectedAnswerFor_cong) (simp add: s1_def forceCompletion_fields)
  have el1: "getResult ElevenLabs s1 = getResult ElevenLabs (store w)"
    unfolding s1_def by (rule forceCompletion_other) simp
  have oa2: "getResult OpenAI s2 = getResult OpenAI s1"
    unfolding s2_def by (rule forceCompletion_other) simp
  obtain cur where r2: "r' = getResult p (forceCompletion deps p (store w) cur)"
    and cq: "getCurrentQuestion cur = getCurrentQuestion (store w)"
    and ce: "\<And>q. expectedAnswerFor cur q = expectedAnswerFor (store w) q"
    and cr: "getResult p cur = r"
  proof (cases p)
    case OpenAI
    show ?thesis
      by (rule that[of "store w"]) (simp_all add: r' r fin getResult_setRecordingCompleted OpenAI oa2 s1_def)
  next
    case ElevenLabs
    show ?thesis
      by (rule that[of s1]) (simp_all add: r' r fin getResult_setRecordingCompleted ElevenLabs s2_def q1 e1 el1)
  qed
  have completed: "recordingState (store (finalizationTimeoutCallback deps c w)) = RecCompleted"
    unfolding fin by (rule rs)
  have fallback: "finalText (transcript r') = fragment
      \<and> (\<forall>q. getCurrentQuestion (store w) = Some q \<longrightarrow>
            status r' = StCompleted
            \<and> metrics r' =
           Some \<lparr>accuracy = fst (calculateAccuracy (calculateSimilarity deps) fragment
                                   (expectedAnswerFor (store w) q)),
                 fluency = fst (calculateFluency (detectFillers deps) (countTotalFillers deps) fragment),
                 structureScore = fst (calculateStructure deps fragment (structureMode q)
                                         (expectedKeywords q)),
                 overall = calculateOverall
                   (of_int (fst (calculateAccuracy (calculateSimilarity deps) fragment
                                   (expectedAnswerFor (store w) q))))
                   (of_int (fst (calculateFluency (detectFillers deps) (countTotalFillers deps)
                                   fragment)))
                   (fst (calculateStructure deps fragment (structureMode q)
                           (expectedKeywords q)))\<rparr>)
      \<and> (getCurrentQuestion (store w) = None \<longrightarrow>
            r' = r\<lparr>transcript := (transcript r)\<lparr>finalText := fragment\<rparr>\<rparr>)"
    if st: "status r \<noteq> StCompleted" and ne: "fragment \<noteq> []"
  proof (intro conjI allI impI)
    show "finalText (transcript r') = fragment"
      unfolding r2 by (rule forceCompletion_stored[OF st[unfolded r] fr[unfolded r] ne])
  next
    fix q assume q: "getCurrentQuestion (store w) = Some q"
    then have "getCurrentQuestion cur = Some q" by (simp add: cq)
    from forceCompletion_scored[OF st[unfolded r] fr[unfolded r] ne this, of deps]
    show "status r' = StCompleted" and "metrics r' =
           Some \<lparr>accuracy = fst (calculateAccuracy (calculateSimilarity deps) fragment
                                   (expectedAnswerFor (store w) q)),
                 fluency = fst (calculateFluency (detectFillers deps) (countTotalFillers deps) fragment),
                 structureScore = fst (calculateStructure deps fragment (structureMode q)
                                         (expectedKeywords q)),
                 overall = calculateOverall
                   (of_int (fst (calculateAccuracy (calculateSimilarity deps) fragment
                                   (expectedAnswerFor (store w) q))))
                   (of_int (fst (calculateFluency (detectFillers deps) (countTotalFillers deps)
                                   fragment)))
                   (fst (calculateStructure deps fragment (structureMode q)
                           (expectedKeywords q)))\<rparr>"
      by (simp_all add: r2 ce)
  next
    assume "getCurrentQuestion (store w) = None"
    then have "getCurrentQuestion cur = None" by (simp add: cq)
    from forceCompletion_no_question[OF st[unfolded r] fr[unfolded r] ne this, of deps]
    show "r' = r\<lparr>transcript := (transcript r)\<lparr>finalText := fragment\<rparr>\<rparr>"
      by (simp add: r2 cr)
  qed
  have untouched: "r' = r" if "status r = StCompleted \<or> fragment = []"
  proof -
    have "forceCompletion deps p (store w) cur = cur"
      by (rule forceCompletion_skip) (use that in \<open>simp add: r fr\<close>)
    then show ?thesis by (simp add: r2 cr)
  qed
  show ?thesis
    using completed fallback untouched by blast
qed


lemma fl_100: "fl 100 = 100" by code_simp
lemma calculateOverall_100: "calculateOverall 100 100 100 = 100" by code_simp

lemma demo_store:
  "recordingCycleRef demoWorld = 1"
  "getResult OpenAI (store demoWorld) =
     createInitialProviderResult
       \<lparr>status := StProcessing,
        transcript := \<lparr>interimText = ''Bowser 1'', committedText = [], finalText = []\<rparr>\<rparr>"
  "getResult ElevenLabs (store demoWorld) = createInitialProviderResult\<lparr>status := StProcessing\<rparr>"
  "getCurrentQuestion (store demoWorld) = Some demoQuestion"
  "expectedAnswerFor (store demoWorld) demoQuestion = ''Bowser One''"
  by (simp_all add: demoWorld_def demoSession_def initialState_def getResult_def
        getCurrentQuestion_def expectedAnswerFor_def demoQuestion_def)


theorem C8_witness:
  "recordingCycleRef demoWorld = 1
   \<and> status (getResult OpenAI (store demoWorld)) = StProcessing
   \<and> committedText (transcript (getResult OpenAI (store demoWorld))) = []
   \<and> interimText (transcript (getResult OpenAI (store demoWorld))) = ''Bowser 1''
   \<and> getCurrentQuestion (store demoWorld) = Some demoQuestion
   \<and> recordingState (store (finalizationTimeoutCallback demoDeps 1 demoWorld)) = RecCompleted
   \<and> finalText (transcript (getResult OpenAI
         (store (finalizationTimeoutCallback demoDeps 1 demoWorld)))) = ''Bowser 1''
   \<and> status (getResult OpenAI (store (finalizationTimeoutCallback demoDeps 1 demoWorld)))
         = StCompleted
   \<and> metrics (getResult OpenAI (store (finalizationTimeoutCallback demoDeps 1 demoWorld)))
         = Some \<lparr>accuracy = 100, fluency = 100, structureScore = 100, overall = 100\<rparr>
   \<and> getResult ElevenLabs (store (finalizationTimeoutCallback demoDeps 1 demoWorld))
         = getResult ElevenLabs (store demoWorld)
   \<and> getCurrentQuestion (store (demoWorld\<lparr>store := demoSession\<lparr>questionBank := None\<rparr>\<rparr>)) = None
   \<and> getResult OpenAI (store (finalizationTimeoutCallback demoDeps 1
                                   (demoWorld\<lparr>store := demoSession\<lparr>questionBank := None\<rparr>\<rparr>)))
         = createInitialProviderResult
             \<lparr>status := StProcessing,
              transcript := \<lparr>interimText = ''Bowser 1'', committedText = [],
                             finalText = ''Bowser 1''\<rparr>\<rparr>"
proof -
  let ?w0 = "demoWorld\<lparr>store := demoSession\<lparr>questionBank := None\<rparr>\<rparr>"
  have acc: "fst (calculateAccuracy (calculateSimilarity demoDeps) ''Bowser 1'' ''Bowser One'') = 100"
    by (simp add: calculateAccuracy_def Let_def demoDeps_def nf_bowser_1 nf_bowser_one fl_100
          jsRound_100)
  have flu: "fst (calculateFluency (detectFillers demoDeps) (countTotalFillers demoDeps) ''Bowser 1'') = 100"
    by (simp add: calculateFluency_def Let_def demoDeps_def)
  have str: "fst (calculateStructure demoDeps ''Bowser 1'' (structureMode demoQuestion)
                    (expectedKeywords demoQuestion)) = 100"
    by (simp add: demoDeps_def)
  have w0: "recordingCycleRef ?w0 = 1"
    "getResult OpenAI (demoSession\<lparr>questionBank := None\<rparr>) = getResult OpenAI (store demoWorld)"
    "getCurrentQuestion (demoSession\<lparr>questionBank := None\<rparr>) = None"
    by (simp_all add: demoWorld_def demoSession_def initialState_def getResult_def
          getCurrentQuestion_def)
  have scored:
    "recordingState (store (finalizationTimeoutCallback demoDeps 1 demoWorld)) = RecCompleted
     \<and> finalText (transcript (getResult OpenAI
           (store (finalizationTimeoutCallback demoDeps 1 demoWorld)))) = ''Bowser 1''
     \<and> status (getResult OpenAI (store (finalizationTimeoutCallback demoDeps 1 demoWorld)))
           = StCompleted
     \<and> metrics (getResult OpenAI (store (finalizationTimeoutCallback demoDeps 1 demoWorld)))
           = Some \<lparr>accuracy = 100, fluency = 100, structureScore = 100, overall = 100\<rparr>"
    using C8_finalization_timeout_fallback
            [where w = demoWorld and c = 1 and p = OpenAI and deps = demoDeps,
             OF demo_store(1) refl refl refl]
    by (simp add: demo_store acc flu str calculateOverall_100 createInitialProviderResult_def
          jsOr_def)
  have passed_over:
    "getResult ElevenLabs (store (finalizationTimeoutCallback demoDeps 1 demoWorld))
       = getResult ElevenLabs (store demoWorld)"
    using C8_finalization_timeout_fallback
            [where w = demoWorld and c = 1 and p = ElevenLabs and deps = demoDeps,
             OF demo_store(1) refl refl refl]
    by (simp add: demo_store createInitialProviderResult_def jsOr_def)
  have stored_only:
    "getResult OpenAI (store (finalizationTimeoutCallback demoDeps 1 ?w0))
       = createInitialProviderResult
           \<lparr>status := StProcessing,
            transcript := \<lparr>interimText = ''Bowser 1'', committedText = [],
                           finalText = ''Bowser 1''\<rparr>\<rparr>"
    using C8_finalization_timeout_fallback
            [where w = "?w0" and c = 1 and p = OpenAI and deps = demoDeps,
             OF w0(1) refl refl refl]
    by (simp add: w0 demo_store createInitialProviderResult_def jsOr_def)
  show ?thesis
    using scored passed_over stored_only w0(3)
    by (simp add: demo_store createInitialProviderResult_def)
qed


text \<open>
  A provider with neither a committed nor an interim text is passed over by the guard of
  the fallback: no final transcript is stored and no score is computed for it.
\<close>

theorem C8_no_fragment_not_scored:
  "recordingCycleRef demoWorld = 1
   \<and> status (getResult ElevenLabs (store demoWorld)) = StProcessing
   \<and> metrics (getResult ElevenLabs (store (finalizationTimeoutCallback demoDeps 1 demoWorld)))
         = None
   \<and> finalText (transcript (getResult ElevenLabs
         (store (finalizationTimeoutCallback demoDeps 1 demoWorld)))) = []
   \<and> status (getResult ElevenLabs (store (finalizationTimeoutCallback demoDeps 1 demoWorld)))
         = StProcessing"
proof -
  define s1 where "s1 = forceCompletion demoDeps OpenAI (store demoWorld) (store demoWorld)"
  have a: "getResult ElevenLabs s1 = getResult ElevenLabs (store demoWorld)"
    unfolding s1_def by (rule forceCompletion_other) simp
  have b: "forceCompletion demoDeps ElevenLabs (store demoWorld) s1 = s1"
    by (simp add: forceCompletion_def Let_def demo_store createInitialProviderResult_def)
  have fin: "store (finalizationTimeoutCallback demoDeps 1 demoWorld) = setRecordingCompleted s1"
    by (simp add: finalizationTimeoutCallback_def Let_def demo_store s1_def[symmetric] b)
  have res: "getResult ElevenLabs (setRecordingCompleted s1) = getResult ElevenLabs s1"
    by (simp add: getResult_def setRecordingCompleted_def)
  show ?thesis
    unfolding fin res a
    by (simp add: demo_store createInitialProviderResult_def)
qed

end
